theory Spec2Isabelle
  imports Complex_Main
begin

section \<open>The \<open>number\<close> type of the program\<close>

text \<open>
  Every quantity of the crop-geometry code is a TypeScript \<open>number\<close>. The model keeps
  the four kinds of value such a number can be: a finite value, the two infinities and
  NaN. Finite values are real numbers; zero carries no sign. Division by zero and
  arithmetic on non-finite values follow the rules of the language: a positive value
  divided by zero is \<open>Infinity\<close>, zero divided by zero is \<open>NaN\<close>, and every comparison
  with \<open>NaN\<close> is false.

  The operators \<open>+\<close>, \<open>-\<close>, \<open>*\<close> and \<open>/\<close> below compute exactly. The layout and pan
  arithmetic uses them: its quantities are continuous, and the values of the code
  differ from the exact ones in the last bits only. Target fitting floors its results
  and compares them with the image height, so there a last bit decides an integer;
  it uses \<open>fmul\<close> and \<open>fdiv\<close>, which round the exact result to binary64 as the language
  does.
\<close>

datatype number = Fin real | PInf | NInf | NaN

instantiation number :: "{zero, one, plus, uminus, minus, times, inverse, ord}"
begin

definition zero_number :: number where
  "zero_number = Fin 0"

definition one_number :: number where
  "one_number = Fin 1"

fun plus_number :: "number \<Rightarrow> number \<Rightarrow> number" where
  "plus_number (Fin a) (Fin b) = Fin (a + b)"
| "plus_number NaN _ = NaN"
| "plus_number _ NaN = NaN"
| "plus_number PInf NInf = NaN"
| "plus_number NInf PInf = NaN"
| "plus_number PInf _ = PInf"
| "plus_number _ PInf = PInf"
| "plus_number NInf _ = NInf"
| "plus_number _ NInf = NInf"

fun uminus_number :: "number \<Rightarrow> number" where
  "uminus_number (Fin a) = Fin (- a)"
| "uminus_number PInf = NInf"
| "uminus_number NInf = PInf"
| "uminus_number NaN = NaN"

definition minus_number :: "number \<Rightarrow> number \<Rightarrow> number" where
  "minus_number a b = a + (- b)"

fun times_number :: "number \<Rightarrow> number \<Rightarrow> number" where
  "times_number (Fin a) (Fin b) = Fin (a * b)"
| "times_number NaN _ = NaN"
| "times_number _ NaN = NaN"
| "times_number (Fin a) PInf = (if a = 0 then NaN else if 0 < a then PInf else NInf)"
| "times_number (Fin a) NInf = (if a = 0 then NaN else if 0 < a then NInf else PInf)"
| "times_number PInf (Fin b) = (if b = 0 then NaN else if 0 < b then PInf else NInf)"
| "times_number NInf (Fin b) = (if b = 0 then NaN else if 0 < b then NInf else PInf)"
| "times_number PInf PInf = PInf"
| "times_number NInf NInf = PInf"
| "times_number PInf NInf = NInf"
| "times_number NInf PInf = NInf"

fun divide_number :: "number \<Rightarrow> number \<Rightarrow> number" where
  "divide_number (Fin a) (Fin b) =
     (if b \<noteq> 0 then Fin (a / b)
      else if a = 0 then NaN else if 0 < a then PInf else NInf)"
| "divide_number NaN _ = NaN"
| "divide_number _ NaN = NaN"
| "divide_number (Fin a) _ = Fin 0"
| "divide_number PInf (Fin b) = (if 0 \<le> b then PInf else NInf)"
| "divide_number NInf (Fin b) = (if 0 \<le> b then NInf else PInf)"
| "divide_number _ _ = NaN"

definition inverse_number :: "number \<Rightarrow> number" where
  "inverse_number a = divide (Fin 1) a"

fun less_number :: "number \<Rightarrow> number \<Rightarrow> bool" where
  "less_number (Fin a) (Fin b) = (a < b)"
| "less_number NaN _ = False"
| "less_number _ NaN = False"
| "less_number _ NInf = False"
| "less_number PInf _ = False"
| "less_number _ _ = True"

definition less_eq_number :: "number \<Rightarrow> number \<Rightarrow> bool" where
  "less_eq_number a b = (a < b \<or> (a = b \<and> a \<noteq> NaN))"

instance ..

end

text \<open>The functions of the language's \<open>Math\<close> object that the code calls.\<close>

fun Math_floor :: "number \<Rightarrow> number" where
  "Math_floor (Fin a) = Fin (of_int \<lfloor>a\<rfloor>)"
| "Math_floor v = v"

text \<open>\<open>Math.round\<close> rounds to the nearest integer, a half towards plus infinity.\<close>

fun Math_round :: "number \<Rightarrow> number" where
  "Math_round (Fin a) = Fin (of_int \<lfloor>a + 1 / 2\<rfloor>)"
| "Math_round v = v"

fun Math_abs :: "number \<Rightarrow> number" where
  "Math_abs (Fin a) = Fin \<bar>a\<bar>"
| "Math_abs NaN = NaN"
| "Math_abs _ = PInf"

definition Math_min :: "number \<Rightarrow> number \<Rightarrow> number" where
  "Math_min a b = (if a = NaN \<or> b = NaN then NaN else if a < b then a else b)"

definition Math_max :: "number \<Rightarrow> number \<Rightarrow> number" where
  "Math_max a b = (if a = NaN \<or> b = NaN then NaN else if b < a then a else b)"

text \<open>
  The truthiness test behind \<open>v || d\<close> on an optional number: a missing entry, zero and
  NaN give the default.
\<close>

definition or_default :: "number option \<Rightarrow> number \<Rightarrow> number" where
  "or_default v d =
     (case v of None \<Rightarrow> d | Some n \<Rightarrow> if n = Fin 0 \<or> n = NaN then d else n)"

subsection \<open>Rounding to binary64\<close>

text \<open>Rounding to the nearest integer, a tie to the even one.\<close>

definition rne :: "real \<Rightarrow> int" where
  "rne q =
     (let f = \<lfloor>q\<rfloor>; d = q - of_int f
      in if d < 1 / 2 then f else if 1 / 2 < d then f + 1 else if even f then f else f + 1)"

text \<open>The binary exponent of a positive value: \<open>2 powi binexp x \<le> x < 2 powi (binexp x + 1)\<close>.\<close>

function binexp :: "real \<Rightarrow> int" where
  "binexp x =
     (if 2 \<le> x then binexp (x / 2) + 1
      else if 0 < x \<and> x < 1 then binexp (x * 2) - 1
      else 0)"
  by pat_completeness auto
termination
proof (relation "measure (\<lambda>x. if 1 \<le> x then nat \<lfloor>x\<rfloor> else nat \<lceil>1 / x\<rceil>)")
  show "wf (measure (\<lambda>x. if 1 \<le> x then nat \<lfloor>x\<rfloor> else nat \<lceil>1 / x\<rceil>))"
    by simp
next
  fix x :: real
  assume "2 \<le> x"
  then have "\<lfloor>x / 2\<rfloor> < \<lfloor>x\<rfloor>" "0 \<le> \<lfloor>x / 2\<rfloor>"
    by linarith+
  with \<open>2 \<le> x\<close> show "(x / 2, x) \<in> measure (\<lambda>x. if 1 \<le> x then nat \<lfloor>x\<rfloor> else nat \<lceil>1 / x\<rceil>)"
    by simp
next
  fix x :: real
  assume a: "\<not> 2 \<le> x" "0 < x \<and> x < 1"
  show "(x * 2, x) \<in> measure (\<lambda>x. if 1 \<le> x then nat \<lfloor>x\<rfloor> else nat \<lceil>1 / x\<rceil>)"
  proof (cases "1 \<le> x * 2")
    case True
    then have "\<lfloor>x * 2\<rfloor> = 1" using a by linarith
    moreover have "1 < 1 / x" using a by simp
    then have "2 \<le> \<lceil>1 / x\<rceil>" by linarith
    ultimately show ?thesis using a True by simp
  next
    case False
    then have "2 < 1 / x" using a by (simp add: field_simps)
    have "1 / (x * 2) = (1 / x) / 2" by simp
    then have "\<lceil>1 / (x * 2)\<rceil> < \<lceil>1 / x\<rceil>"
      using \<open>2 < 1 / x\<close> by linarith
    moreover have "0 < \<lceil>1 / x\<rceil>" using \<open>2 < 1 / x\<close> by linarith
    ultimately show ?thesis using a False by simp
  qed
qed

declare binexp.simps [simp del]

text \<open>
  The binary64 value nearest to a real, a tie going to the even significand: 53
  significant bits. The exponent range of the format is not modelled; no quantity of
  target fitting comes near its ends for an image a browser can decode.
\<close>

definition binary64 :: "real \<Rightarrow> real" where
  "binary64 x =
     (if x = 0 then 0
      else let u = 2 powi (binexp \<bar>x\<bar> - 52)
           in sgn x * (of_int (rne (\<bar>x\<bar> / u)) * u))"

text \<open>Multiplication and division as the language performs them: the exact result, rounded.\<close>

definition fmul :: "number \<Rightarrow> number \<Rightarrow> number" where
  "fmul a b = (case a * b of Fin x \<Rightarrow> Fin (binary64 x) | v \<Rightarrow> v)"

definition fdiv :: "number \<Rightarrow> number \<Rightarrow> number" where
  "fdiv a b = (case a / b of Fin x \<Rightarrow> Fin (binary64 x) | v \<Rightarrow> v)"


section \<open>Data model\<close>

text \<open>The declarations of \<open>types.ts\<close> and the configuration of \<open>constants.ts\<close>.\<close>

record CropPreset =
  preset_id :: string
  preset_label :: string
  baseWidth :: number
  baseHeight :: number
  preset_suffix :: string

record CropTarget =
  target_id :: string
  target_width :: number
  target_height :: number
  target_suffix :: "string option"
  target_label :: "string option"

record Vector2D =
  vec_x :: number
  vec_y :: number

text \<open>The decoded raster (\<open>element\<close>) is an opaque handle and is left out.\<close>

record ImageInfo =
  img_src :: string
  img_width :: number
  img_height :: number
  img_name :: string
  img_size :: number

record Size =
  size_width :: number
  size_height :: number

record PreviewLayout =
  layout_container :: Size
  layout_image :: Size
  scaleFactor :: number

record CroppedResult =
  url :: string
  result_size :: number

record File =
  file_name :: string
  file_type :: string
  file_size :: number

definition SCALE_PRESETS :: "number list" where
  "SCALE_PRESETS = [Fin (1 / 2), Fin 1, Fin (3 / 2), Fin 2, Fin (5 / 2)]"

definition CROP_PRESETS :: "CropPreset list" where
  "CROP_PRESETS =
     [\<lparr>preset_id = ''mobile'', preset_label = ''Mobile'',
       baseWidth = Fin 1055, baseHeight = Fin 967, preset_suffix = ''_S''\<rparr>,
      \<lparr>preset_id = ''desktop'', preset_label = ''Desktop'',
       baseWidth = Fin 1024, baseHeight = Fin 440, preset_suffix = ''_L''\<rparr>]"

definition PREVIEW_WIDTH :: number where
  "PREVIEW_WIDTH = Fin 450"

text \<open>
  The state of the \<open>App\<close> component: its eight state variables, and the log of the
  notices it has shown with \<open>alert\<close>. The release of object URLs is an effect outside
  this state.
\<close>

record AppState =
  imageInfo :: "ImageInfo option"
  dynamicTargets :: "CropTarget list"
  cropPositions :: "string \<rightharpoonup> Vector2D"
  zoomLevels :: "string \<rightharpoonup> number"
  targetScales :: "string \<rightharpoonup> number"
  croppedImages :: "string \<rightharpoonup> CroppedResult"
  isProcessing :: bool
  quality :: number
  alerts :: "string list"

text \<open>The initial values of the state variables.\<close>

definition initialState :: AppState where
  "initialState =
     \<lparr>imageInfo = None, dynamicTargets = [], cropPositions = Map.empty,
      zoomLevels = Map.empty, targetScales = Map.empty, croppedImages = Map.empty,
      isProcessing = False, quality = Fin (92 / 100), alerts = []\<rparr>"

section \<open>The upload widget\<close>

definition startsWith :: "string \<Rightarrow> string \<Rightarrow> bool" where
  "startsWith s p = (take (length p) s = p)"

text \<open>
  Both handlers read the first entry of the event's file list (\<open>files?.[0]\<close>) and call
  \<open>onImageUpload\<close> when there is one and its type starts with \<open>image/\<close>. The callback is
  the only way the widget reaches the application state; the highlight class that
  \<open>handleDrop\<close> removes from the label is presentation only.
\<close>

definition handleFileChange :: "(File \<Rightarrow> 'st \<Rightarrow> 'st) \<Rightarrow> File list \<Rightarrow> 'st \<Rightarrow> 'st" where
  "handleFileChange onImageUpload files st =
     (case files of
        [] \<Rightarrow> st
      | file # _ \<Rightarrow>
          if startsWith (file_type file) ''image/'' then onImageUpload file st else st)"

definition handleDrop :: "(File \<Rightarrow> 'st \<Rightarrow> 'st) \<Rightarrow> File list \<Rightarrow> 'st \<Rightarrow> 'st" where
  "handleDrop onImageUpload files st =
     (case files of
        [] \<Rightarrow> st
      | file # _ \<Rightarrow>
          if startsWith (file_type file) ''image/'' then onImageUpload file st else st)"

section \<open>Cover layout and target fitting\<close>

definition calculateLayout :: "CropTarget \<Rightarrow> ImageInfo \<Rightarrow> PreviewLayout" where
  "calculateLayout target imgInfo =
     (let targetRatio = target_width target / target_height target;
          containerWidth = PREVIEW_WIDTH;
          containerHeight = containerWidth / targetRatio;
          imageRatio = img_width imgInfo / img_height imgInfo;
          renderHeight = (if imageRatio > targetRatio then containerHeight
                          else containerWidth / imageRatio);
          renderWidth = (if imageRatio > targetRatio then containerHeight * imageRatio
                         else containerWidth);
          scaleFactor = img_width imgInfo / renderWidth
      in \<lparr>layout_container = \<lparr>size_width = containerWidth, size_height = containerHeight\<rparr>,
          layout_image = \<lparr>size_width = renderWidth, size_height = renderHeight\<rparr>,
          scaleFactor = scaleFactor\<rparr>)"

text \<open>
  The function mapped over \<open>CROP_PRESETS\<close> when an image has been decoded. Its two
  quotients and its product are rounded to binary64.
\<close>

definition fitTarget :: "number \<Rightarrow> number \<Rightarrow> CropPreset \<Rightarrow> CropTarget" where
  "fitTarget imgW imgH preset =
     (let ratio = fdiv (baseWidth preset) (baseHeight preset);
          targetW = imgW;
          targetH = fdiv imgW ratio
      in if targetH > imgH
         then \<lparr>target_id = preset_id preset,
               target_width = Math_floor (fmul imgH ratio), target_height = Math_floor imgH,
               target_suffix = Some (preset_suffix preset),
               target_label = Some (preset_label preset)\<rparr>
         else \<lparr>target_id = preset_id preset,
               target_width = Math_floor targetW, target_height = Math_floor targetH,
               target_suffix = Some (preset_suffix preset),
               target_label = Some (preset_label preset)\<rparr>)"

section \<open>The handlers of the application\<close>

definition resetState :: "AppState \<Rightarrow> AppState" where
  "resetState st =
     st\<lparr>imageInfo := None, dynamicTargets := [], cropPositions := Map.empty,
        zoomLevels := Map.empty, targetScales := Map.empty, croppedImages := Map.empty,
        isProcessing := False, quality := Fin (92 / 100)\<rparr>"

text \<open>
  \<open>file.name.replace(/\.[^/.]+$/, "")\<close>: the part from the last dot on is removed when
  it has at least one character after the dot and no slash.
\<close>

fun removeExtension :: "string \<Rightarrow> string" where
  "removeExtension [] = []"
| "removeExtension (c # cs) =
     (if c = CHR ''.'' \<and> cs \<noteq> [] \<and> CHR ''.'' \<notin> set cs \<and> CHR ''/'' \<notin> set cs then []
      else c # removeExtension cs)"

text \<open>
  \<open>handleImageUpload\<close> resets the state and starts the decoding of the file. The
  decoder is external: \<open>decoded\<close> is \<open>None\<close> when no raster ever arrives, and otherwise
  holds the data URL and the natural width and height with which \<open>img.onload\<close> runs.
\<close>

definition handleImageUpload :: "(string \<times> nat \<times> nat) option \<Rightarrow> File \<Rightarrow> AppState \<Rightarrow> AppState" where
  "handleImageUpload decoded file st0 =
     (let st = resetState st0;
          fileName = removeExtension (file_name file)
      in case decoded of
           None \<Rightarrow> st
         | Some (src, naturalWidth, naturalHeight) \<Rightarrow>
             (let imgW = Fin (real naturalWidth);
                  imgH = Fin (real naturalHeight);
                  newImageInfo = \<lparr>img_src = src, img_width = imgW, img_height = imgH,
                                  img_name = fileName, img_size = file_size file\<rparr>;
                  newTargets = map (fitTarget imgW imgH) CROP_PRESETS;
                  initialZooms =
                    fold (\<lambda>target acc. acc(target_id target \<mapsto> Fin 1)) newTargets Map.empty;
                  initialScales =
                    fold (\<lambda>target acc. acc(target_id target \<mapsto> Fin 1)) newTargets Map.empty;
                  initialPositions =
                    fold (\<lambda>target acc.
                            let layout = calculateLayout target newImageInfo
                            in acc(target_id target \<mapsto>
                                 \<lparr>vec_x = (size_width (layout_container layout)
                                            - size_width (layout_image layout)) / Fin 2,
                                  vec_y = (size_height (layout_container layout)
                                            - size_height (layout_image layout)) / Fin 2\<rparr>))
                         newTargets Map.empty
              in st\<lparr>imageInfo := Some newImageInfo, dynamicTargets := newTargets,
                    zoomLevels := initialZooms, targetScales := initialScales,
                    cropPositions := initialPositions\<rparr>))"

definition handlePositionChange :: "string \<Rightarrow> Vector2D \<Rightarrow> AppState \<Rightarrow> AppState" where
  "handlePositionChange ident newPosition st =
     st\<lparr>cropPositions := (cropPositions st)(ident \<mapsto> newPosition)\<rparr>"

definition handleZoomChange :: "string \<Rightarrow> number \<Rightarrow> AppState \<Rightarrow> AppState" where
  "handleZoomChange ident newZoom st =
     (case imageInfo st of
        None \<Rightarrow> st
      | Some info \<Rightarrow>
          (case find (\<lambda>t. target_id t = ident) (dynamicTargets st) of
             None \<Rightarrow> st
           | Some target \<Rightarrow>
               (let oldZoom = or_default (zoomLevels st ident) (Fin 1);
                    layout = calculateLayout target info;
                    pos = (case cropPositions st ident of
                             None \<Rightarrow> \<lparr>vec_x = Fin 0, vec_y = Fin 0\<rparr>
                           | Some p \<Rightarrow> p);
                    containerCenterX = size_width (layout_container layout) / Fin 2;
                    containerCenterY = size_height (layout_container layout) / Fin 2;
                    offsetFromImageOriginX = containerCenterX - vec_x pos;
                    offsetFromImageOriginY = containerCenterY - vec_y pos;
                    scaleChange = newZoom / oldZoom;
                    newOffsetX = offsetFromImageOriginX * scaleChange;
                    newOffsetY = offsetFromImageOriginY * scaleChange;
                    newX = containerCenterX - newOffsetX;
                    newY = containerCenterY - newOffsetY;
                    zoomedWidth = size_width (layout_image layout) * newZoom;
                    zoomedHeight = size_height (layout_image layout) * newZoom;
                    minX = size_width (layout_container layout) - zoomedWidth;
                    minY = size_height (layout_container layout) - zoomedHeight;
                    newX' = Math_min (Fin 0) (Math_max minX newX);
                    newY' = Math_min (Fin 0) (Math_max minY newY)
                in st\<lparr>zoomLevels := (zoomLevels st)(ident \<mapsto> newZoom),
                      cropPositions := (cropPositions st)(ident \<mapsto>
                                          \<lparr>vec_x = newX', vec_y = newY'\<rparr>)\<rparr>)))"

definition handleScaleChange :: "string \<Rightarrow> number \<Rightarrow> AppState \<Rightarrow> AppState" where
  "handleScaleChange ident newScale st =
     st\<lparr>targetScales := (targetScales st)(ident \<mapsto> newScale)\<rparr>"

section \<open>Export\<close>

text \<open>The arguments of the \<open>drawImage\<close> call; the destination origin is always (0, 0).\<close>

record DrawCall =
  sx :: number
  sy :: number
  sWidth :: number
  sHeight :: number
  dWidth :: number
  dHeight :: number

definition drawCall :: "AppState \<Rightarrow> ImageInfo \<Rightarrow> CropTarget \<Rightarrow> Vector2D \<Rightarrow> DrawCall" where
  "drawCall st info target position =
     (let scale = or_default (targetScales st (target_id target)) (Fin 1);
          outputWidth = Math_round (target_width target * scale);
          outputHeight = Math_round (target_height target * scale);
          layout = calculateLayout target info;
          zoom = or_default (zoomLevels st (target_id target)) (Fin 1);
          renderedWidth = size_width (layout_image layout) * zoom;
          finalScaleFactor = img_width info / renderedWidth;
          sourceX = Math_abs (vec_x position) * finalScaleFactor;
          sourceY = Math_abs (vec_y position) * finalScaleFactor;
          sourceWidth = size_width (layout_container layout) * finalScaleFactor;
          sourceHeight = size_height (layout_container layout) * finalScaleFactor
      in \<lparr>sx = Math_round sourceX, sy = Math_round sourceY,
          sWidth = Math_round sourceWidth, sHeight = Math_round sourceHeight,
          dWidth = outputWidth, dHeight = outputHeight\<rparr>)"

datatype crop_error = NoContext | NoPosition | NoBlob

text \<open>
  One promise of \<open>handleCrop\<close>. The canvas and the encoder are external:
  \<open>getContext ident\<close> tells whether the canvas made for the target gives a drawing
  context, and \<open>toBlob ident call q\<close> is the encoded result, or \<open>None\<close> when the encoder
  hands back no blob. A target without a stored position makes the read of
  \<open>position.x\<close> throw, which the surrounding \<open>try\<close> turns into a rejection.
\<close>

definition cropTarget ::
  "(string \<Rightarrow> bool) \<Rightarrow> (string \<Rightarrow> DrawCall \<Rightarrow> number \<Rightarrow> CroppedResult option)
   \<Rightarrow> AppState \<Rightarrow> ImageInfo \<Rightarrow> CropTarget \<Rightarrow> crop_error + string \<times> CroppedResult" where
  "cropTarget getContext toBlob st info target =
     (if \<not> getContext (target_id target) then Inl NoContext
      else case cropPositions st (target_id target) of
             None \<Rightarrow> Inl NoPosition
           | Some position \<Rightarrow>
               (case toBlob (target_id target) (drawCall st info target position) (quality st) of
                  None \<Rightarrow> Inl NoBlob
                | Some blob \<Rightarrow> Inr (target_id target, blob)))"

text \<open>
  \<open>Promise.all\<close>: the list of all values, or a rejection when one promise rejects. Which
  rejection it passes on is not observable here: \<open>handleCrop\<close> shows the same notice for
  each.
\<close>

fun Promise_all :: "('e + 'a) list \<Rightarrow> 'e + 'a list" where
  "Promise_all [] = Inr []"
| "Promise_all (Inl e # _) = Inl e"
| "Promise_all (Inr v # ps) =
     (case Promise_all ps of Inl e \<Rightarrow> Inl e | Inr vs \<Rightarrow> Inr (v # vs))"

text \<open>
  \<open>handleCrop\<close>, from the click to the end of its \<open>finally\<close> block. While the promises
  are pending \<open>isProcessing\<close> is true; the state returned is the one after they settled.
\<close>

definition handleCrop ::
  "(string \<Rightarrow> bool) \<Rightarrow> (string \<Rightarrow> DrawCall \<Rightarrow> number \<Rightarrow> CroppedResult option)
   \<Rightarrow> AppState \<Rightarrow> AppState" where
  "handleCrop getContext toBlob st =
     (case imageInfo st of
        None \<Rightarrow> st
      | Some info \<Rightarrow>
          (let cropPromises = map (cropTarget getContext toBlob st info) (dynamicTargets st)
           in case Promise_all cropPromises of
                Inr results \<Rightarrow>
                  st\<lparr>croppedImages := fold (\<lambda>curr acc. acc(fst curr \<mapsto> snd curr)) results Map.empty,
                     isProcessing := False\<rparr>
              | Inl error \<Rightarrow>
                  st\<lparr>alerts := alerts st @
                       [''An error occurred during cropping. Please check the console.''],
                     isProcessing := False\<rparr>))"

subsection \<open>File names\<close>

definition digit :: "nat \<Rightarrow> char" where
  "digit n = ''0123456789'' ! (n mod 10)"

fun show_nat :: "nat \<Rightarrow> string" where
  "show_nat n = (if n < 10 then [digit n] else show_nat (n div 10) @ [digit n])"

declare show_nat.simps [simp del]

text \<open>
  The text a template literal gives for a number. The code converts results of
  \<open>Math.round\<close> only; a finite value is printed as the decimal digits of its integer
  part, which is what the language prints for an integer below \<open>10^21\<close> in magnitude.
\<close>

fun toString :: "number \<Rightarrow> string" where
  "toString (Fin a) =
     (if a < 0 then ''-'' @ show_nat (nat (- \<lfloor>a\<rfloor>)) else show_nat (nat \<lfloor>a\<rfloor>))"
| "toString PInf = ''Infinity''"
| "toString NInf = ''-Infinity''"
| "toString NaN = ''NaN''"

text \<open>The test \<open>if (target.suffix)\<close> holds for a suffix that is present and not empty.\<close>

definition getOutputFilename :: "string \<Rightarrow> CropTarget \<Rightarrow> number \<Rightarrow> string" where
  "getOutputFilename baseName target scale =
     (let w = Math_round (target_width target * scale);
          h = Math_round (target_height target * scale)
      in case target_suffix target of
           None \<Rightarrow> baseName @ ''_'' @ toString w @ ''x'' @ toString h @ ''.webp''
         | Some suffix \<Rightarrow>
             if suffix \<noteq> []
             then baseName @ suffix @ ''_'' @ toString w @ ''x'' @ toString h @ ''.webp''
             else baseName @ ''_'' @ toString w @ ''x'' @ toString h @ ''.webp'')"

section \<open>The crop preview\<close>

text \<open>
  \<open>App\<close> hands every preview the container of the base layout and the image size of
  the base layout multiplied by the current zoom.
\<close>

definition displayLayout :: "AppState \<Rightarrow> ImageInfo \<Rightarrow> CropTarget \<Rightarrow> Size \<times> Size" where
  "displayLayout st info target =
     (let baseLayout = calculateLayout target info;
          currentZoom = or_default (zoomLevels st (target_id target)) (Fin 1)
      in (layout_container baseLayout,
          \<lparr>size_width = size_width (layout_image baseLayout) * currentZoom,
           size_height = size_height (layout_image baseLayout) * currentZoom\<rparr>))"

record PreviewState =
  isDragging :: bool
  dragStart :: Vector2D

definition clampPosition :: "Size \<Rightarrow> Size \<Rightarrow> Vector2D \<Rightarrow> Vector2D" where
  "clampPosition container img pos =
     (let minX = size_width container - size_width img;
          minY = size_height container - size_height img
      in \<lparr>vec_x = Math_min (Fin 0) (Math_max minX (vec_x pos)),
          vec_y = Math_min (Fin 0) (Math_max minY (vec_y pos))\<rparr>)"

definition handleMouseDown :: "Vector2D \<Rightarrow> number \<times> number \<Rightarrow> PreviewState \<Rightarrow> PreviewState" where
  "handleMouseDown position e ps =
     ps\<lparr>isDragging := True,
        dragStart := \<lparr>vec_x = fst e - vec_x position, vec_y = snd e - vec_y position\<rparr>\<rparr>"

definition handleMouseMove ::
  "(string \<Rightarrow> Vector2D \<Rightarrow> 'st \<Rightarrow> 'st) \<Rightarrow> Size \<Rightarrow> Size \<Rightarrow> string \<Rightarrow> PreviewState
   \<Rightarrow> number \<times> number \<Rightarrow> 'st \<Rightarrow> 'st" where
  "handleMouseMove onPositionChange container img ident ps e st =
     (if \<not> isDragging ps then st
      else let newPos = \<lparr>vec_x = fst e - vec_x (dragStart ps),
                         vec_y = snd e - vec_y (dragStart ps)\<rparr>
           in onPositionChange ident (clampPosition container img newPos) st)"

definition handleMouseUp :: "PreviewState \<Rightarrow> PreviewState" where
  "handleMouseUp ps = ps\<lparr>isDragging := False\<rparr>"

section \<open>Scenarios\<close>

text \<open>Concrete inputs and states on which the examples below are evaluated.\<close>

definition sampleFile :: File where
  "sampleFile = \<lparr>file_name = ''photo.png'', file_type = ''image/png'', file_size = Fin 1024\<rparr>"

definition sampleImage :: "nat \<Rightarrow> nat \<Rightarrow> ImageInfo" where
  "sampleImage w h =
     \<lparr>img_src = [], img_width = Fin (real w), img_height = Fin (real h),
      img_name = ''photo'', img_size = Fin 1024\<rparr>"

text \<open>The state after \<open>sampleFile\<close> has been uploaded and decoded to a raster of the given size.\<close>

definition uploaded :: "nat \<Rightarrow> nat \<Rightarrow> AppState" where
  "uploaded w h = handleImageUpload (Some ([], w, h)) sampleFile initialState"

text \<open>
  A state whose single target has ratio 12 / 11 on an image 2000 \<times> 1000, at zoom 1 with
  the position (-100, -50): the container is 450 \<times> 412.5 and the rendered image
  825 \<times> 412.5.
\<close>

definition anchorScenario :: AppState where
  "anchorScenario =
     initialState\<lparr>imageInfo := Some (sampleImage 2000 1000),
       dynamicTargets := [\<lparr>target_id = ''t'', target_width = Fin 1200, target_height = Fin 1100,
                           target_suffix = None, target_label = None\<rparr>],
       cropPositions := [''t'' \<mapsto> \<lparr>vec_x = Fin (- 100), vec_y = Fin (- 50)\<rparr>],
       zoomLevels := [''t'' \<mapsto> Fin 1],
       targetScales := [''t'' \<mapsto> Fin 1]\<rparr>"

text \<open>
  An image 1001 \<times> 1001 has been uploaded, the first target zoomed to 2, and its
  preview dragged as far to the left as the clamp allows.
\<close>

definition edgeScenario :: AppState where
  "edgeScenario =
     (let zoomed = handleZoomChange ''mobile'' (Fin 2) (uploaded 1001 1001);
          layout = displayLayout zoomed (sampleImage 1001 1001) (hd (dynamicTargets zoomed))
      in handleMouseMove handlePositionChange (fst layout) (snd layout) ''mobile''
           \<lparr>isDragging = True, dragStart = \<lparr>vec_x = Fin 0, vec_y = Fin 0\<rparr>\<rparr>
           (Fin (- 1000), Fin (- 100)) zoomed)"

section \<open>Arithmetic on finite numbers\<close>

lemma Fin_minus [simp]: "Fin a - Fin b = Fin (a - b)"
  by (simp add: minus_number_def)

lemma Fin_le [simp]: "(Fin a \<le> Fin b) = (a \<le> b)"
  by (auto simp: less_eq_number_def)

lemma Math_min_Fin [simp]: "Math_min (Fin a) (Fin b) = Fin (min a b)"
  by (simp add: Math_min_def min_def)

lemma Math_max_Fin [simp]: "Math_max (Fin a) (Fin b) = Fin (max a b)"
  by (simp add: Math_max_def max_def)

lemma fmul_Fin [simp]: "fmul (Fin a) (Fin b) = Fin (binary64 (a * b))"
  by (simp add: fmul_def)

lemma fdiv_Fin: "b \<noteq> 0 \<Longrightarrow> fdiv (Fin a) (Fin b) = Fin (binary64 (a / b))"
  by (simp add: fdiv_def)

section \<open>Binary64 rounding\<close>

lemma binexp_bounds:
  "0 < x \<Longrightarrow> 2 powi binexp x \<le> x \<and> x < 2 powi (binexp x + 1)"
proof (induction x rule: binexp.induct)
  case (1 x)
  show ?case
  proof (cases "2 \<le> x")
    case True
    then have e: "binexp x = binexp (x / 2) + 1"
      by (subst binexp.simps) simp
    have "2 powi binexp (x / 2) \<le> x / 2 \<and> x / 2 < 2 powi (binexp (x / 2) + 1)"
      using "1.IH"(1) [OF True] "1.prems" by simp
    then show ?thesis
      unfolding e by (simp add: power_int_add)
  next
    case False
    show ?thesis
    proof (cases "x < 1")
      case True
      then have e: "binexp x = binexp (x * 2) - 1"
        using False "1.prems" by (subst binexp.simps) simp
      have "2 powi binexp (x * 2) \<le> x * 2 \<and> x * 2 < 2 powi (binexp (x * 2) + 1)"
        using "1.IH"(2) [OF False] True "1.prems" by simp
      then show ?thesis
        unfolding e by (simp add: power_int_diff power_int_add)
    next
      case ge: False
      then have e: "binexp x = 0"
        using False by (subst binexp.simps) simp
      show ?thesis
        unfolding e using False ge by simp
    qed
  qed
qed

lemma rne_ge_floor: "\<lfloor>q\<rfloor> \<le> rne q"
  by (simp add: rne_def Let_def)

lemma binary64_ge_powi:
  assumes "0 < x"
  shows "2 powi binexp x \<le> binary64 x"
proof -
  define e where "e = binexp x"
  define u where "u = (2::real) powi (e - 52)"
  have u: "0 < u" by (simp add: u_def)
  have eu: "2 powi e = 2 ^ 52 * u"
    by (simp add: u_def power_int_diff)
  have "2 powi e \<le> x" using binexp_bounds [OF assms] by (simp add: e_def)
  then have "2 ^ 52 \<le> x / u"
    using u by (simp add: eu pos_le_divide_eq)
  then have "(2::int) ^ 52 \<le> \<lfloor>x / u\<rfloor>"
    by (simp add: le_floor_iff)
  then have "(2::int) ^ 52 \<le> rne (x / u)"
    using rne_ge_floor [of "x / u"] by linarith
  then have "(2::real) ^ 52 \<le> of_int (rne (x / u))"
    by (metis of_int_le_iff of_int_numeral of_int_power)
  then have "2 ^ 52 * u \<le> of_int (rne (x / u)) * u"
    using u by (simp add: mult_right_mono)
  then show ?thesis
    using assms by (simp add: binary64_def Let_def e_def [symmetric] u_def [symmetric] eu)
qed

lemma binary64_pos:
  assumes "0 < x"
  shows "0 < binary64 x"
proof -
  have "(0::real) < 2 powi binexp x" by simp
  with binary64_ge_powi [OF assms] show ?thesis by linarith
qed

lemma binary64_ge_1:
  assumes "1 \<le> x"
  shows "1 \<le> binary64 x"
proof -
  have x: "0 < x" using assms by simp
  have "0 \<le> binexp x"
  proof (rule ccontr)
    assume "\<not> 0 \<le> binexp x"
    then have "binexp x + 1 \<le> 0" by simp
    then have "(2::real) powi (binexp x + 1) \<le> 2 powi 0"
      by (intro power_int_increasing) simp_all
    with binexp_bounds [OF x] assms show False by simp
  qed
  then have "(2::real) powi 0 \<le> 2 powi binexp x"
    by (intro power_int_increasing) simp_all
  with binary64_ge_powi [OF x] show ?thesis by simp
qed

lemma rne_le: "real_of_int (rne q) \<le> q + 1 / 2"
proof -
  define d where "d = q - real_of_int \<lfloor>q\<rfloor>"
  have f: "real_of_int \<lfloor>q\<rfloor> = q - d" by (simp add: d_def)
  have d: "0 \<le> d" "d < 1" unfolding d_def by linarith+
  consider "d < 1 / 2" | "1 / 2 < d" | "d = 1 / 2" by linarith
  then show ?thesis
  proof cases
    case 1
    then have "rne q = \<lfloor>q\<rfloor>" by (simp add: rne_def Let_def d_def)
    with f d show ?thesis by simp
  next
    case 2
    then have "rne q = \<lfloor>q\<rfloor> + 1" by (simp add: rne_def Let_def d_def)
    with f 2 show ?thesis by simp
  next
    case 3
    then have "rne q = \<lfloor>q\<rfloor> \<or> rne q = \<lfloor>q\<rfloor> + 1" by (simp add: rne_def Let_def d_def)
    with f 3 show ?thesis by auto
  qed
qed

lemma binary64_le:
  assumes "0 < x"
  shows "binary64 x \<le> x * (1 + 1 / 2 ^ 53)"
proof -
  define u where "u = (2::real) powi (binexp x - 52)"
  have u: "0 < u" by (simp add: u_def)
  have "2 ^ 52 * u = 2 powi binexp x"
    by (simp add: u_def power_int_diff)
  also have "\<dots> \<le> x" using binexp_bounds [OF assms] by simp
  finally have ux: "u \<le> x / 2 ^ 52" by (simp add: field_simps)
  have "real_of_int (rne (x / u)) * u \<le> (x / u + 1 / 2) * u"
    using u rne_le [of "x / u"] by (intro mult_right_mono) simp_all
  also have "\<dots> = x + u / 2" using u by (simp add: field_simps)
  also have "\<dots> \<le> x + (x / 2 ^ 52) / 2" using ux by simp
  also have "\<dots> = x * (1 + 1 / 2 ^ 53)" by (simp add: field_simps)
  finally show ?thesis
    using assms by (simp add: binary64_def Let_def u_def [symmetric])
qed

section \<open>Target fitting\<close>

lemma fitTarget_Fin:
  assumes "0 < bw" "0 < bh" "baseWidth p = Fin bw" "baseHeight p = Fin bh"
  shows "fitTarget (Fin w) (Fin h) p =
           (let ratio = binary64 (bw / bh);
                targetH = binary64 (w / ratio)
            in \<lparr>target_id = preset_id p,
                target_width = Fin (of_int (if h < targetH then \<lfloor>binary64 (h * ratio)\<rfloor> else \<lfloor>w\<rfloor>)),
                target_height = Fin (of_int (if h < targetH then \<lfloor>h\<rfloor> else \<lfloor>targetH\<rfloor>)),
                target_suffix = Some (preset_suffix p),
                target_label = Some (preset_label p)\<rparr>)"
proof -
  have "0 < binary64 (bw / bh)"
    using assms(1,2) by (intro binary64_pos) simp
  then have "binary64 (bw / bh) \<noteq> 0" by simp
  then show ?thesis
    using assms by (simp add: fitTarget_def fdiv_Fin Let_def)
qed

text \<open>The ratios of the two presets and the targets of the images used below, in binary64.\<close>

lemma mobile_ratio: "binary64 (1055 / 967) = 4913441165331823 / 4503599627370496"
  by (simp add: binary64_def binexp.simps rne_def Let_def)

lemma desktop_ratio: "binary64 (1024 / 440) = 2620276146833743 / 1125899906842624"
  by (simp add: binary64_def binexp.simps rne_def Let_def)

lemma fitTarget_presets:
  "fitTarget (Fin w) (Fin h) (CROP_PRESETS ! 0) =
     (let ratio = 4913441165331823 / 4503599627370496;
          targetH = binary64 (w / ratio)
      in \<lparr>target_id = ''mobile'',
          target_width = Fin (of_int (if h < targetH then \<lfloor>binary64 (h * ratio)\<rfloor> else \<lfloor>w\<rfloor>)),
          target_height = Fin (of_int (if h < targetH then \<lfloor>h\<rfloor> else \<lfloor>targetH\<rfloor>)),
          target_suffix = Some ''_S'', target_label = Some ''Mobile''\<rparr>)"
  "fitTarget (Fin w) (Fin h) (CROP_PRESETS ! 1) =
     (let ratio = 2620276146833743 / 1125899906842624;
          targetH = binary64 (w / ratio)
      in \<lparr>target_id = ''desktop'',
          target_width = Fin (of_int (if h < targetH then \<lfloor>binary64 (h * ratio)\<rfloor> else \<lfloor>w\<rfloor>)),
          target_height = Fin (of_int (if h < targetH then \<lfloor>h\<rfloor> else \<lfloor>targetH\<rfloor>)),
          target_suffix = Some ''_L'', target_label = Some ''Desktop''\<rparr>)"
proof -
  have p0: "baseWidth (CROP_PRESETS ! 0) = Fin 1055" "baseHeight (CROP_PRESETS ! 0) = Fin 967"
    and p1: "baseWidth (CROP_PRESETS ! 1) = Fin 1024" "baseHeight (CROP_PRESETS ! 1) = Fin 440"
    by (simp_all add: CROP_PRESETS_def)
  have n: "(0::real) < 1055" "(0::real) < 967" "(0::real) < 1024" "(0::real) < 440"
    by simp_all
  show "fitTarget (Fin w) (Fin h) (CROP_PRESETS ! 0) =
     (let ratio = 4913441165331823 / 4503599627370496;
          targetH = binary64 (w / ratio)
      in \<lparr>target_id = ''mobile'',
          target_width = Fin (of_int (if h < targetH then \<lfloor>binary64 (h * ratio)\<rfloor> else \<lfloor>w\<rfloor>)),
          target_height = Fin (of_int (if h < targetH then \<lfloor>h\<rfloor> else \<lfloor>targetH\<rfloor>)),
          target_suffix = Some ''_S'', target_label = Some ''Mobile''\<rparr>)"
    unfolding fitTarget_Fin [OF n(1,2) p0] mobile_ratio by (simp add: CROP_PRESETS_def)
  show "fitTarget (Fin w) (Fin h) (CROP_PRESETS ! 1) =
     (let ratio = 2620276146833743 / 1125899906842624;
          targetH = binary64 (w / ratio)
      in \<lparr>target_id = ''desktop'',
          target_width = Fin (of_int (if h < targetH then \<lfloor>binary64 (h * ratio)\<rfloor> else \<lfloor>w\<rfloor>)),
          target_height = Fin (of_int (if h < targetH then \<lfloor>h\<rfloor> else \<lfloor>targetH\<rfloor>)),
          target_suffix = Some ''_L'', target_label = Some ''Desktop''\<rparr>)"
    unfolding fitTarget_Fin [OF n(3,4) p1] desktop_ratio by (simp add: CROP_PRESETS_def)
qed

lemma fitTarget_2000_1000_mobile:
  "fitTarget (Fin 2000) (Fin 1000) (CROP_PRESETS ! 0) =
     \<lparr>target_id = ''mobile'', target_width = Fin 1091, target_height = Fin 1000,
      target_suffix = Some ''_S'', target_label = Some ''Mobile''\<rparr>"
  unfolding fitTarget_presets by (simp add: binary64_def binexp.simps rne_def Let_def)

lemma fitTarget_1001_1001_mobile:
  "fitTarget (Fin 1001) (Fin 1001) (CROP_PRESETS ! 0) =
     \<lparr>target_id = ''mobile'', target_width = Fin 1001, target_height = Fin 917,
      target_suffix = Some ''_S'', target_label = Some ''Mobile''\<rparr>"
  unfolding fitTarget_presets by (simp add: binary64_def binexp.simps rne_def Let_def)

lemma fitTarget_1001_1001_desktop:
  "fitTarget (Fin 1001) (Fin 1001) (CROP_PRESETS ! 1) =
     \<lparr>target_id = ''desktop'', target_width = Fin 1001, target_height = Fin 430,
      target_suffix = Some ''_L'', target_label = Some ''Desktop''\<rparr>"
  unfolding fitTarget_presets by (simp add: binary64_def binexp.simps rne_def Let_def)

lemma fitTarget_3_3_mobile:
  "fitTarget (Fin 3) (Fin 3) (CROP_PRESETS ! 0) =
     \<lparr>target_id = ''mobile'', target_width = Fin 3, target_height = Fin 2,
      target_suffix = Some ''_S'', target_label = Some ''Mobile''\<rparr>"
  unfolding fitTarget_presets by (simp add: binary64_def binexp.simps rne_def Let_def)

lemma fitTarget_3_3_desktop:
  "fitTarget (Fin 3) (Fin 3) (CROP_PRESETS ! 1) =
     \<lparr>target_id = ''desktop'', target_width = Fin 3, target_height = Fin 1,
      target_suffix = Some ''_L'', target_label = Some ''Desktop''\<rparr>"
  unfolding fitTarget_presets by (simp add: binary64_def binexp.simps rne_def Let_def)

lemma fitTarget_1_1_mobile:
  "fitTarget (Fin 1) (Fin 1) (CROP_PRESETS ! 0) =
     \<lparr>target_id = ''mobile'', target_width = Fin 1, target_height = Fin 0,
      target_suffix = Some ''_S'', target_label = Some ''Mobile''\<rparr>"
  unfolding fitTarget_presets by (simp add: binary64_def binexp.simps rne_def Let_def)

lemma fitTarget_3165_2901_mobile:
  "fitTarget (Fin 3165) (Fin 2901) (CROP_PRESETS ! 0) =
     \<lparr>target_id = ''mobile'', target_width = Fin 3164, target_height = Fin 2901,
      target_suffix = Some ''_S'', target_label = Some ''Mobile''\<rparr>"
  unfolding fitTarget_presets by (simp add: binary64_def binexp.simps rne_def Let_def)

lemma fitTarget_4000_2901_mobile:
  "fitTarget (Fin 4000) (Fin 2901) (CROP_PRESETS ! 0) =
     \<lparr>target_id = ''mobile'', target_width = Fin 3164, target_height = Fin 2901,
      target_suffix = Some ''_S'', target_label = Some ''Mobile''\<rparr>"
  unfolding fitTarget_presets by (simp add: binary64_def binexp.simps rne_def Let_def)

lemma map_fitTarget:
  "map (fitTarget w h) CROP_PRESETS =
     [fitTarget w h (CROP_PRESETS ! 0), fitTarget w h (CROP_PRESETS ! 1)]"
  by (simp add: CROP_PRESETS_def)

lemma fitTarget_id: "target_id (fitTarget w h p) = preset_id p"
  by (simp add: fitTarget_def Let_def)

lemma fitTarget_dims:
  fixes W H :: nat
  assumes "0 < W" "0 < H" "0 < bh" "bh \<le> bw"
    and "baseWidth p = Fin bw" "baseHeight p = Fin bh"
  shows "\<exists>tw th. target_width (fitTarget (Fin (real W)) (Fin (real H)) p) = Fin tw
           \<and> target_height (fitTarget (Fin (real W)) (Fin (real H)) p) = Fin th
           \<and> 0 < tw \<and> 0 \<le> th"
proof -
  have bw: "0 < bw" using assms(3,4) by simp
  define r where "r = binary64 (bw / bh)"
  define h where "h = binary64 (real W / r)"
  have r: "1 \<le> r" unfolding r_def using assms(3,4) by (intro binary64_ge_1) simp
  have h: "0 < h" unfolding h_def using r assms(1) by (intro binary64_pos) simp
  note t = fitTarget_Fin [OF bw assms(3,5,6), of "real W" "real H", unfolded Let_def,
      folded r_def, folded h_def]
  show ?thesis
  proof (cases "real H < h")
    case True
    have "1 * 1 \<le> real H * r"
      using assms(2) r by (intro mult_mono) simp_all
    then have "1 \<le> binary64 (real H * r)"
      by (intro binary64_ge_1) simp
    then have "1 \<le> \<lfloor>binary64 (real H * r)\<rfloor>"
      by (simp add: le_floor_iff)
    then have "0 < real_of_int \<lfloor>binary64 (real H * r)\<rfloor>"
      by simp
    with True show ?thesis
      unfolding t by simp
  next
    case False
    have "0 \<le> real_of_int \<lfloor>h\<rfloor>"
      using h by simp
    with False assms(1) show ?thesis
      unfolding t by simp
  qed
qed

text \<open>
  What target fitting does guarantee, in binary64 arithmetic, for images up to
  \<open>2^32\<close> pixels wide: the target has non-negative integer sides within the image.
\<close>

lemma fitTarget_within_image:
  fixes W H :: nat and bw bh :: real
  assumes "0 < W" "0 < H" "W \<le> 2 ^ 32" "0 < bw" "0 < bh"
    and "baseWidth p = Fin bw" "baseHeight p = Fin bh"
  shows "\<exists>w h. target_width (fitTarget (Fin (real W)) (Fin (real H)) p) = Fin (of_int w)
           \<and> target_height (fitTarget (Fin (real W)) (Fin (real H)) p) = Fin (of_int h)
           \<and> 0 \<le> w \<and> w \<le> int W \<and> 0 \<le> h \<and> h \<le> int H"
proof -
  define r where "r = binary64 (bw / bh)"
  define th where "th = binary64 (real W / r)"
  define tw where "tw = binary64 (real H * r)"
  have r: "0 < r" unfolding r_def using assms(4,5) by (intro binary64_pos) simp
  have th: "0 < th" unfolding th_def using r assms(1) by (intro binary64_pos) simp
  have tw: "0 < tw" unfolding tw_def using r assms(2) by (intro binary64_pos) simp
  note t = fitTarget_Fin [OF assms(4-7), of "real W" "real H", unfolded Let_def,
      folded r_def, folded th_def tw_def]
  show ?thesis
  proof (cases "real H < th")
    case True
    define e where "e = 1 + 1 / (2::real) ^ 53"
    have e: "0 < e" by (simp add: e_def)
    have "th \<le> real W / r * e"
      unfolding th_def e_def using r assms(1) by (intro binary64_le) simp
    with True have "real H < real W / r * e" by simp
    then have "real H * r < real W * e"
      using r by (simp add: field_simps)
    then have "real H * r * e < real W * e * e"
      using e by (intro mult_strict_right_mono)
    moreover have "tw \<le> real H * r * e"
      unfolding tw_def e_def using r assms(2) by (intro binary64_le) simp
    ultimately have "tw < real W * (e * e)" by (simp add: mult.assoc)
    moreover have "real W * (e * e) \<le> real W + 1"
    proof -
      have "e * e - 1 \<le> 1 / 2 ^ 32"
        by (simp add: e_def field_simps)
      moreover have "real W \<le> 2 ^ 32"
        using assms(3) by (metis of_nat_le_iff of_nat_numeral of_nat_power)
      moreover have "1 * 1 \<le> e * e"
        by (intro mult_mono) (simp_all add: e_def)
      ultimately have "real W * (e * e - 1) \<le> 2 ^ 32 * (1 / 2 ^ 32)"
        by (intro mult_mono) simp_all
      then show ?thesis by (simp add: algebra_simps)
    qed
    ultimately have "tw < real W + 1" by simp
    then have "\<lfloor>tw\<rfloor> \<le> int W" by linarith
    moreover have "0 \<le> \<lfloor>tw\<rfloor>" using tw by simp
    ultimately show ?thesis
      using True unfolding t by (intro exI [of _ "\<lfloor>tw\<rfloor>"] exI [of _ "int H"]) simp
  next
    case False
    then have "\<lfloor>th\<rfloor> \<le> int H" by linarith
    moreover have "0 \<le> \<lfloor>th\<rfloor>" using th by simp
    ultimately show ?thesis
      using False unfolding t by (intro exI [of _ "int W"] exI [of _ "\<lfloor>th\<rfloor>"]) simp
  qed
qed

text \<open>
  Claim C1 describes target fitting in exact terms: refit if and only if \<open>W / r > H\<close>,
  and floor \<open>(W, W / r)\<close> or \<open>(H \<cdot> r, H)\<close>. The code computes in binary64, and for the preset
  1055 / 967 and an image height of three times its base height the last bit
  decides. For the
  image 3165 \<times> 2901 the exact \<open>W / r\<close> is 2901, not above the height, and the claim's
  target is the whole image; the code's quotient lies just above 2901, it refits, its
  product lies just below 3165, and the target is 3164 \<times> 2901. For the image
  4000 \<times> 2901 both refit, and the floor of the exact \<open>H \<cdot> r\<close> is 3165 where the code gets
  3164. The example of the claim, 2000 \<times> 1000, does get 1091 \<times> 1000.
\<close>

theorem target_fitting_rounding:
  "fitTarget (Fin 3165) (Fin 2901) (CROP_PRESETS ! 0) =
     \<lparr>target_id = ''mobile'', target_width = Fin 3164, target_height = Fin 2901,
      target_suffix = Some ''_S'', target_label = Some ''Mobile''\<rparr>
   \<and> \<not> (2901 < (3165::real) / (1055 / 967))
   \<and> \<lfloor>(3165::real)\<rfloor> = 3165 \<and> \<lfloor>(3165::real) / (1055 / 967)\<rfloor> = 2901
   \<and> fitTarget (Fin 4000) (Fin 2901) (CROP_PRESETS ! 0) =
     \<lparr>target_id = ''mobile'', target_width = Fin 3164, target_height = Fin 2901,
      target_suffix = Some ''_S'', target_label = Some ''Mobile''\<rparr>
   \<and> 2901 < (4000::real) / (1055 / 967)
   \<and> \<lfloor>(2901::real) * (1055 / 967)\<rfloor> = 3165
   \<and> fitTarget (Fin 2000) (Fin 1000) (CROP_PRESETS ! 0) =
     \<lparr>target_id = ''mobile'', target_width = Fin 1091, target_height = Fin 1000,
      target_suffix = Some ''_S'', target_label = Some ''Mobile''\<rparr>"
  unfolding fitTarget_3165_2901_mobile fitTarget_4000_2901_mobile fitTarget_2000_1000_mobile
  by simp

section \<open>Cover layout\<close>

lemma calculateLayout_Fin:
  assumes "0 < tw" "0 \<le> th" "0 < W" "0 < H"
    and "target_width t = Fin tw" "target_height t = Fin th"
    and "img_width i = Fin W" "img_height i = Fin H"
  shows "calculateLayout t i =
           (if th \<noteq> 0 \<and> tw / th < W / H
            then \<lparr>layout_container = \<lparr>size_width = Fin 450, size_height = Fin (450 / (tw / th))\<rparr>,
                  layout_image = \<lparr>size_width = Fin (450 / (tw / th) * (W / H)),
                                  size_height = Fin (450 / (tw / th))\<rparr>,
                  scaleFactor = Fin (W / (450 / (tw / th) * (W / H)))\<rparr>
            else \<lparr>layout_container = \<lparr>size_width = Fin 450, size_height = Fin (450 / (tw / th))\<rparr>,
                  layout_image = \<lparr>size_width = Fin 450, size_height = Fin (450 / (W / H))\<rparr>,
                  scaleFactor = Fin (W / 450)\<rparr>)"
  using assms by (simp add: calculateLayout_def PREVIEW_WIDTH_def Let_def)

lemma cover_by_height:
  fixes tw th W H :: real
  assumes "0 < tw" "0 < th" "tw / th < W / H"
  shows "450 \<le> 450 / (tw / th) * (W / H)"
proof -
  have ch: "0 < 450 / (tw / th)" using assms(1,2) by simp
  have "450 / (tw / th) * (tw / th) < 450 / (tw / th) * (W / H)"
    using assms(3) ch by (rule mult_strict_left_mono)
  moreover have "450 / (tw / th) * (tw / th) = 450"
    using assms(1,2) by simp
  ultimately show ?thesis by simp
qed

lemma cover_by_width:
  fixes tw th W H :: real
  assumes "0 < tw" "0 < th" "0 < W" "0 < H" "\<not> tw / th < W / H"
  shows "450 / (tw / th) \<le> 450 / (W / H)"
proof -
  have "W / H \<le> tw / th" using assms(5) by simp
  moreover have "0 < tw / th * (W / H)" using assms(1-4) by simp
  ultimately show ?thesis
    by (intro divide_left_mono) simp_all
qed

lemma calculateLayout_cover:
  assumes "0 < tw" "0 \<le> th" "0 < W" "0 < H"
    and "target_width t = Fin tw" "target_height t = Fin th"
    and "img_width i = Fin W" "img_height i = Fin H"
  shows "\<exists>ch iw ih.
           calculateLayout t i =
             \<lparr>layout_container = \<lparr>size_width = Fin 450, size_height = Fin ch\<rparr>,
              layout_image = \<lparr>size_width = Fin iw, size_height = Fin ih\<rparr>,
              scaleFactor = Fin (W / iw)\<rparr>
           \<and> 0 \<le> ch \<and> 450 \<le> iw \<and> ch \<le> ih \<and> 0 < ih \<and> iw * H = ih * W"
proof (cases "th \<noteq> 0 \<and> tw / th < W / H")
  case True
  then have th: "0 < th" using assms(2) by simp
  define ch where "ch = 450 / (tw / th)"
  have ch: "0 < ch" using assms(1) th by (simp add: ch_def)
  have iw: "450 \<le> ch * (W / H)"
    unfolding ch_def using assms(1) th True by (intro cover_by_height) simp_all
  have "calculateLayout t i =
             \<lparr>layout_container = \<lparr>size_width = Fin 450, size_height = Fin ch\<rparr>,
              layout_image = \<lparr>size_width = Fin (ch * (W / H)), size_height = Fin ch\<rparr>,
              scaleFactor = Fin (W / (ch * (W / H)))\<rparr>"
    using calculateLayout_Fin [OF assms] True by (simp add: ch_def)
  moreover have "ch * (W / H) * H = ch * W"
    using assms(4) by simp
  moreover have "0 \<le> ch" "ch \<le> ch"
    using ch by simp_all
  ultimately show ?thesis
    using ch iw by blast
next
  case False
  define ch where "ch = 450 / (tw / th)"
  have ch0: "0 \<le> ch" using assms(1,2) by (simp add: ch_def)
  have ih: "0 < 450 / (W / H)" using assms(3,4) by simp
  have le: "ch \<le> 450 / (W / H)"
  proof (cases "th = 0")
    case True
    then show ?thesis using ih by (simp add: ch_def)
  next
    case th: False
    then have "0 < th" using assms(2) by simp
    moreover have "\<not> tw / th < W / H" using False th by simp
    ultimately show ?thesis
      unfolding ch_def using assms(1,3,4) by (intro cover_by_width) simp_all
  qed
  have "calculateLayout t i =
             \<lparr>layout_container = \<lparr>size_width = Fin 450, size_height = Fin ch\<rparr>,
              layout_image = \<lparr>size_width = Fin 450, size_height = Fin (450 / (W / H))\<rparr>,
              scaleFactor = Fin (W / 450)\<rparr>"
    using calculateLayout_Fin [OF assms] False by (auto simp: ch_def)
  moreover have "450 * H = 450 / (W / H) * W"
    using assms(3,4) by simp
  moreover have "(450::real) \<le> 450"
    by simp
  ultimately show ?thesis
    using ch0 ih le by blast
qed

text \<open>
  Claim C2, amended in its example. For a target and an image of positive finite
  dimensions, with \<open>Cw = 450\<close>, \<open>Ch = Cw / (tw / th)\<close> and image ratio \<open>ri = W / H\<close>: when
  \<open>ri\<close> exceeds the target ratio the layout renders the image at height \<open>Ch\<close> and width
  \<open>Ch \<cdot> ri\<close>, otherwise at width \<open>Cw\<close> and height \<open>Cw / ri\<close>; either way the rendered size
  is at least the container's in both directions. For the target 1091 \<times> 1000 and the
  image 2000 \<times> 1000 the rendered height is \<open>450000 / 1091\<close> (about 412.47) and the rendered
  width \<open>900000 / 1091\<close> (about 824.93).
\<close>

theorem cover_layout:
  assumes "0 < tw" "0 < th" "0 < W" "0 < H"
    and "target_width t = Fin tw" "target_height t = Fin th"
    and "img_width i = Fin W" "img_height i = Fin H"
  shows "(let Cw = 450; rt = tw / th; Ch = Cw / rt; ri = W / H;
              renderWidth = (if ri > rt then Ch * ri else Cw);
              renderHeight = (if ri > rt then Ch else Cw / ri);
              layout = calculateLayout t i
          in layout_container layout = \<lparr>size_width = Fin Cw, size_height = Fin Ch\<rparr>
             \<and> layout_image layout = \<lparr>size_width = Fin renderWidth, size_height = Fin renderHeight\<rparr>
             \<and> Cw \<le> renderWidth \<and> Ch \<le> renderHeight)
         \<and> layout_image (calculateLayout (fitTarget (Fin 2000) (Fin 1000) (CROP_PRESETS ! 0))
               \<lparr>img_src = [], img_width = Fin 2000, img_height = Fin 1000,
                img_name = [], img_size = Fin 0\<rparr>) =
             \<lparr>size_width = Fin (900000 / 1091), size_height = Fin (450000 / 1091)\<rparr>"
proof -
  have th: "0 \<le> th" "th \<noteq> 0" using assms(2) by simp_all
  note L = calculateLayout_Fin [OF assms(1) th(1) assms(3-)]
  have ex: "layout_image (calculateLayout (fitTarget (Fin 2000) (Fin 1000) (CROP_PRESETS ! 0))
               \<lparr>img_src = [], img_width = Fin 2000, img_height = Fin 1000,
                img_name = [], img_size = Fin 0\<rparr>) =
             \<lparr>size_width = Fin (900000 / 1091), size_height = Fin (450000 / 1091)\<rparr>"
    unfolding fitTarget_2000_1000_mobile
    by (simp add: calculateLayout_def PREVIEW_WIDTH_def Let_def)
  show ?thesis
  proof (cases "tw / th < W / H")
    case True
    then have "450 \<le> 450 / (tw / th) * (W / H)"
      using assms(1,2) by (intro cover_by_height) simp_all
    with True th ex show ?thesis
      unfolding Let_def L by simp
  next
    case False
    then have "450 / (tw / th) \<le> 450 / (W / H)"
      using assms(1-4) by (intro cover_by_width) simp_all
    with False th ex show ?thesis
      unfolding Let_def L by simp
  qed
qed

text \<open>
  The rendered height of that example is not 412.5: the target ratio is 1.091, not
  12 / 11.
\<close>

theorem cover_layout_counterexample:
  "size_height (layout_image (calculateLayout (fitTarget (Fin 2000) (Fin 1000) (CROP_PRESETS ! 0))
               \<lparr>img_src = [], img_width = Fin 2000, img_height = Fin 1000,
                img_name = [], img_size = Fin 0\<rparr>)) \<noteq> Fin (825 / 2)"
  unfolding fitTarget_2000_1000_mobile
  by (simp add: calculateLayout_def PREVIEW_WIDTH_def Let_def)

text \<open>A target of ratio 12 / 11 does give the sizes 825 and 412.5.\<close>

theorem cover_layout_witness:
  "layout_image (calculateLayout
      \<lparr>target_id = ''t'', target_width = Fin 1200, target_height = Fin 1100,
       target_suffix = None, target_label = None\<rparr>
      \<lparr>img_src = [], img_width = Fin 2000, img_height = Fin 1000,
       img_name = [], img_size = Fin 0\<rparr>) = \<lparr>size_width = Fin 825, size_height = Fin (825 / 2)\<rparr>"
proof -
  have "(0::real) < 1200" "(0::real) < 1100" "(0::real) < 2000" "(0::real) < 1000"
    by simp_all
  from cover_layout [OF this, of "\<lparr>target_id = ''t'', target_width = Fin 1200, target_height = Fin 1100,
       target_suffix = None, target_label = None\<rparr>" "\<lparr>img_src = [], img_width = Fin 2000, img_height = Fin 1000,
       img_name = [], img_size = Fin 0\<rparr>"]
  show ?thesis by (simp add: Let_def)
qed

section \<open>Pan clamping\<close>

lemma clampPosition_Fin:
  "clampPosition \<lparr>size_width = Fin cw, size_height = Fin ch\<rparr>
                 \<lparr>size_width = Fin iw, size_height = Fin ih\<rparr>
                 \<lparr>vec_x = Fin x, vec_y = Fin y\<rparr> =
     \<lparr>vec_x = Fin (min 0 (max (cw - iw) x)), vec_y = Fin (min 0 (max (ch - ih) y))\<rparr>"
  by (simp add: clampPosition_def Let_def)

lemma handleZoomChange_clamp:
  assumes "imageInfo st = Some info"
    and "find (\<lambda>t. target_id t = ident) (dynamicTargets st) = Some target"
  shows "handleZoomChange ident newZoom st =
           (let layout = calculateLayout target info;
                oldZoom = or_default (zoomLevels st ident) (Fin 1);
                pos = (case cropPositions st ident of
                         None \<Rightarrow> \<lparr>vec_x = Fin 0, vec_y = Fin 0\<rparr> | Some p \<Rightarrow> p);
                centerX = size_width (layout_container layout) / Fin 2;
                centerY = size_height (layout_container layout) / Fin 2
            in st\<lparr>zoomLevels := (zoomLevels st)(ident \<mapsto> newZoom),
                  cropPositions := (cropPositions st)(ident \<mapsto>
                    clampPosition (layout_container layout)
                      \<lparr>size_width = size_width (layout_image layout) * newZoom,
                       size_height = size_height (layout_image layout) * newZoom\<rparr>
                      \<lparr>vec_x = centerX - (centerX - vec_x pos) * (newZoom / oldZoom),
                       vec_y = centerY - (centerY - vec_y pos) * (newZoom / oldZoom)\<rparr>)\<rparr>)"
  using assms by (simp add: handleZoomChange_def clampPosition_def Let_def)

lemma handleZoomChange_Fin:
  assumes "imageInfo st = Some info"
    and "find (\<lambda>t. target_id t = ident) (dynamicTargets st) = Some target"
    and "layout_container (calculateLayout target info) = \<lparr>size_width = Fin cw, size_height = Fin ch\<rparr>"
    and "layout_image (calculateLayout target info) = \<lparr>size_width = Fin iw, size_height = Fin ih\<rparr>"
    and "zoomLevels st ident = Some (Fin zo)" "zo \<noteq> 0"
    and "cropPositions st ident = Some \<lparr>vec_x = Fin px, vec_y = Fin py\<rparr>"
  shows "handleZoomChange ident (Fin zn) st =
           st\<lparr>zoomLevels := (zoomLevels st)(ident \<mapsto> Fin zn),
              cropPositions := (cropPositions st)(ident \<mapsto>
                \<lparr>vec_x = Fin (min 0 (max (cw - iw * zn) (cw / 2 - (cw / 2 - px) * (zn / zo)))),
                 vec_y = Fin (min 0 (max (ch - ih * zn) (ch / 2 - (ch / 2 - py) * (zn / zo))))\<rparr>)\<rparr>"
  using assms by (simp add: handleZoomChange_def or_default_def Let_def)

text \<open>
  Claim C3. For a container and a rendered image of finite sizes with \<open>iw \<ge> cw\<close> and
  \<open>ih \<ge> ch\<close>, \<open>clampPosition\<close> maps \<open>(x, y)\<close> to
  \<open>(min 0 (max (cw - iw) x), min 0 (max (ch - ih) y))\<close>, which lies between \<open>cw - iw\<close> and 0
  and between \<open>ch - ih\<close> and 0. A mouse move during a drag stores the clamped position,
  and a zoom change stores a position clamped against the zoomed image size.
\<close>

theorem pan_clamping:
  assumes "cw \<le> iw" "ch \<le> ih"
  shows "(let container = \<lparr>size_width = Fin cw, size_height = Fin ch\<rparr>;
              img = \<lparr>size_width = Fin iw, size_height = Fin ih\<rparr>;
              x' = min 0 (max (cw - iw) x);
              y' = min 0 (max (ch - ih) y)
          in clampPosition container img \<lparr>vec_x = Fin x, vec_y = Fin y\<rparr>
               = \<lparr>vec_x = Fin x', vec_y = Fin y'\<rparr>
             \<and> cw - iw \<le> x' \<and> x' \<le> 0 \<and> ch - ih \<le> y' \<and> y' \<le> 0)
         \<and> (isDragging ps \<longrightarrow>
              cropPositions (handleMouseMove handlePositionChange c i ident ps e st) ident =
                Some (clampPosition c i \<lparr>vec_x = fst e - vec_x (dragStart ps),
                                        vec_y = snd e - vec_y (dragStart ps)\<rparr>))
         \<and> (imageInfo st = Some info
              \<and> find (\<lambda>t. target_id t = ident) (dynamicTargets st) = Some target \<longrightarrow>
              (\<exists>pre. cropPositions (handleZoomChange ident newZoom st) ident =
                 Some (clampPosition (layout_container (calculateLayout target info))
                        \<lparr>size_width = size_width (layout_image (calculateLayout target info)) * newZoom,
                         size_height = size_height (layout_image (calculateLayout target info)) * newZoom\<rparr>
                        pre)))"
proof -
  have 1: "cw - iw \<le> min 0 (max (cw - iw) x)" "min 0 (max (cw - iw) x) \<le> 0"
    using assms(1) by simp_all
  have 2: "ch - ih \<le> min 0 (max (ch - ih) y)" "min 0 (max (ch - ih) y) \<le> 0"
    using assms(2) by simp_all
  have 3: "isDragging ps \<Longrightarrow>
              cropPositions (handleMouseMove handlePositionChange c i ident ps e st) ident =
                Some (clampPosition c i \<lparr>vec_x = fst e - vec_x (dragStart ps),
                                        vec_y = snd e - vec_y (dragStart ps)\<rparr>)"
    by (simp add: handleMouseMove_def handlePositionChange_def Let_def)
  have 4: "\<exists>pre. cropPositions (handleZoomChange ident newZoom st) ident =
                 Some (clampPosition (layout_container (calculateLayout target info))
                        \<lparr>size_width = size_width (layout_image (calculateLayout target info)) * newZoom,
                         size_height = size_height (layout_image (calculateLayout target info)) * newZoom\<rparr>
                        pre)"
    if "imageInfo st = Some info" "find (\<lambda>t. target_id t = ident) (dynamicTargets st) = Some target"
    unfolding handleZoomChange_clamp [OF that] Let_def by (intro exI) simp
  show ?thesis
    unfolding Let_def clampPosition_Fin using 1 2 3 4 by blast
qed

theorem pan_clamping_witness:
  "clampPosition \<lparr>size_width = Fin 450, size_height = Fin 300\<rparr>
                 \<lparr>size_width = Fin 900, size_height = Fin 900\<rparr>
                 \<lparr>vec_x = Fin (- 1000), vec_y = Fin 20\<rparr> = \<lparr>vec_x = Fin (- 450), vec_y = Fin 0\<rparr>
   \<and> cropPositions
        (handleMouseMove handlePositionChange
           \<lparr>size_width = Fin 450, size_height = Fin 300\<rparr> \<lparr>size_width = Fin 900, size_height = Fin 900\<rparr>
           ''t'' \<lparr>isDragging = True, dragStart = \<lparr>vec_x = Fin 0, vec_y = Fin 0\<rparr>\<rparr>
           (Fin (- 1000), Fin 20) anchorScenario) ''t'' = Some \<lparr>vec_x = Fin (- 450), vec_y = Fin 0\<rparr>
   \<and> (\<exists>pre. cropPositions (handleZoomChange ''t'' (Fin 2) anchorScenario) ''t'' =
          Some (clampPosition \<lparr>size_width = Fin 450, size_height = Fin (825 / 2)\<rparr>
                  \<lparr>size_width = Fin 1650, size_height = Fin 825\<rparr> pre))"
proof -
  have h: "(450::real) \<le> 900" "(300::real) \<le> 900"
    by simp_all
  have s: "imageInfo anchorScenario = Some (sampleImage 2000 1000)
    \<and> find (\<lambda>t. target_id t = ''t'') (dynamicTargets anchorScenario) =
       Some \<lparr>target_id = ''t'', target_width = Fin 1200, target_height = Fin 1100,
             target_suffix = None, target_label = None\<rparr>"
    by (simp add: anchorScenario_def)
  have l: "calculateLayout \<lparr>target_id = ''t'', target_width = Fin 1200,
             target_height = Fin 1100, target_suffix = None, target_label = None\<rparr>
             (sampleImage 2000 1000) =
      \<lparr>layout_container = \<lparr>size_width = Fin 450, size_height = Fin (825 / 2)\<rparr>,
       layout_image = \<lparr>size_width = Fin 825, size_height = Fin (825 / 2)\<rparr>,
       scaleFactor = Fin (80 / 33)\<rparr>"
    by (simp add: sampleImage_def calculateLayout_def PREVIEW_WIDTH_def Let_def)
  from pan_clamping [OF h, of "- 1000" 20
      "\<lparr>isDragging = True, dragStart = \<lparr>vec_x = Fin 0, vec_y = Fin 0\<rparr>\<rparr>"
      "\<lparr>size_width = Fin 450, size_height = Fin 300\<rparr>" "\<lparr>size_width = Fin 900, size_height = Fin 900\<rparr>"
      "''t''" "(Fin (- 1000), Fin 20)" anchorScenario "sampleImage 2000 1000"
      "\<lparr>target_id = ''t'', target_width = Fin 1200, target_height = Fin 1100,
             target_suffix = None, target_label = None\<rparr>" "Fin 2"] s
  show ?thesis
    unfolding l by (simp add: Let_def clampPosition_Fin)
qed

section \<open>Zoom-anchored repositioning\<close>

text \<open>
  Claim C4. On a zoom change from a stored zoom \<open>z_old > 0\<close> to \<open>z_new\<close>, with the container
  centre \<open>(cw / 2, ch / 2)\<close> and the stored position \<open>p\<close>, the handler stores \<open>z_new\<close> and the
  position \<open>centre - (centre - p) \<cdot> (z_new / z_old)\<close> clamped against the rendered size
  multiplied by \<open>z_new\<close>. In the scenario of a container 450 \<times> 412.5 and a rendered image
  825 \<times> 412.5, the position (-100, -50) and a zoom change from 1 to 1.5 give
  (-262.5, -178.125), which the clamp against (1237.5, 618.75) does not move.
\<close>

theorem zoom_anchored_repositioning:
  assumes "imageInfo st = Some info"
    and "find (\<lambda>t. target_id t = ident) (dynamicTargets st) = Some target"
    and "layout_container (calculateLayout target info) = \<lparr>size_width = Fin cw, size_height = Fin ch\<rparr>"
    and "layout_image (calculateLayout target info) = \<lparr>size_width = Fin iw, size_height = Fin ih\<rparr>"
    and "zoomLevels st ident = Some (Fin z_old)" "0 < z_old"
    and "cropPositions st ident = Some \<lparr>vec_x = Fin px, vec_y = Fin py\<rparr>"
  shows "(let centerX = cw / 2; centerY = ch / 2;
              newX = centerX - (centerX - px) * (z_new / z_old);
              newY = centerY - (centerY - py) * (z_new / z_old);
              st' = handleZoomChange ident (Fin z_new) st
          in cropPositions st' ident =
               Some (clampPosition \<lparr>size_width = Fin cw, size_height = Fin ch\<rparr>
                       \<lparr>size_width = Fin (iw * z_new), size_height = Fin (ih * z_new)\<rparr>
                       \<lparr>vec_x = Fin newX, vec_y = Fin newY\<rparr>)
             \<and> zoomLevels st' ident = Some (Fin z_new))
         \<and> layout_container (calculateLayout (hd (dynamicTargets anchorScenario)) (sampleImage 2000 1000))
             = \<lparr>size_width = Fin 450, size_height = Fin (825 / 2)\<rparr>
         \<and> layout_image (calculateLayout (hd (dynamicTargets anchorScenario)) (sampleImage 2000 1000))
             = \<lparr>size_width = Fin 825, size_height = Fin (825 / 2)\<rparr>
         \<and> cropPositions (handleZoomChange ''t'' (Fin (3 / 2)) anchorScenario) ''t''
             = Some \<lparr>vec_x = Fin (- (525 / 2)), vec_y = Fin (- (1425 / 8))\<rparr>
         \<and> clampPosition \<lparr>size_width = Fin 450, size_height = Fin (825 / 2)\<rparr>
               \<lparr>size_width = Fin (2475 / 2), size_height = Fin (2475 / 4)\<rparr>
               \<lparr>vec_x = Fin (- (525 / 2)), vec_y = Fin (- (1425 / 8))\<rparr>
             = \<lparr>vec_x = Fin (- (525 / 2)), vec_y = Fin (- (1425 / 8))\<rparr>"
proof -
  have z: "z_old \<noteq> 0" using assms(6) by simp
  have general: "cropPositions (handleZoomChange ident (Fin z_new) st) ident =
               Some (clampPosition \<lparr>size_width = Fin cw, size_height = Fin ch\<rparr>
                       \<lparr>size_width = Fin (iw * z_new), size_height = Fin (ih * z_new)\<rparr>
                       \<lparr>vec_x = Fin (cw / 2 - (cw / 2 - px) * (z_new / z_old)),
                        vec_y = Fin (ch / 2 - (ch / 2 - py) * (z_new / z_old))\<rparr>)"
    "zoomLevels (handleZoomChange ident (Fin z_new) st) ident = Some (Fin z_new)"
    unfolding handleZoomChange_Fin [OF assms(1-5) z assms(7)] clampPosition_Fin by simp_all
  have layout: "calculateLayout (hd (dynamicTargets anchorScenario)) (sampleImage 2000 1000) =
      \<lparr>layout_container = \<lparr>size_width = Fin 450, size_height = Fin (825 / 2)\<rparr>,
       layout_image = \<lparr>size_width = Fin 825, size_height = Fin (825 / 2)\<rparr>,
       scaleFactor = Fin (80 / 33)\<rparr>"
    by (simp add: anchorScenario_def sampleImage_def calculateLayout_def PREVIEW_WIDTH_def Let_def)
  have moved: "cropPositions (handleZoomChange ''t'' (Fin (3 / 2)) anchorScenario) ''t''
             = Some \<lparr>vec_x = Fin (- (525 / 2)), vec_y = Fin (- (1425 / 8))\<rparr>"
    by (simp add: handleZoomChange_def anchorScenario_def initialState_def sampleImage_def
        calculateLayout_def PREVIEW_WIDTH_def or_default_def Let_def)
  have kept: "clampPosition \<lparr>size_width = Fin 450, size_height = Fin (825 / 2)\<rparr>
               \<lparr>size_width = Fin (2475 / 2), size_height = Fin (2475 / 4)\<rparr>
               \<lparr>vec_x = Fin (- (525 / 2)), vec_y = Fin (- (1425 / 8))\<rparr>
             = \<lparr>vec_x = Fin (- (525 / 2)), vec_y = Fin (- (1425 / 8))\<rparr>"
    unfolding clampPosition_Fin by simp
  show ?thesis
    unfolding Let_def using general layout moved kept by simp
qed

theorem zoom_anchored_repositioning_witness:
  "cropPositions (handleZoomChange ''t'' (Fin 2) anchorScenario) ''t''
     = Some \<lparr>vec_x = Fin (- 425), vec_y = Fin (- (1225 / 4))\<rparr>"
proof -
  have s: "imageInfo anchorScenario = Some (sampleImage 2000 1000)"
    "find (\<lambda>t. target_id t = ''t'') (dynamicTargets anchorScenario) =
       Some \<lparr>target_id = ''t'', target_width = Fin 1200, target_height = Fin 1100,
             target_suffix = None, target_label = None\<rparr>"
    by (simp_all add: anchorScenario_def)
  have l: "layout_container (calculateLayout \<lparr>target_id = ''t'', target_width = Fin 1200,
             target_height = Fin 1100, target_suffix = None, target_label = None\<rparr>
             (sampleImage 2000 1000)) = \<lparr>size_width = Fin 450, size_height = Fin (825 / 2)\<rparr>"
    "layout_image (calculateLayout \<lparr>target_id = ''t'', target_width = Fin 1200,
             target_height = Fin 1100, target_suffix = None, target_label = None\<rparr>
             (sampleImage 2000 1000)) = \<lparr>size_width = Fin 825, size_height = Fin (825 / 2)\<rparr>"
    by (simp_all add: sampleImage_def calculateLayout_def PREVIEW_WIDTH_def Let_def)
  have z: "zoomLevels anchorScenario ''t'' = Some (Fin 1)" "(0::real) < 1"
    by (simp_all add: anchorScenario_def)
  have p: "cropPositions anchorScenario ''t'' = Some \<lparr>vec_x = Fin (- 100), vec_y = Fin (- 50)\<rparr>"
    by (simp add: anchorScenario_def)
  from zoom_anchored_repositioning [OF s l z p, of 2] show ?thesis
    by (simp add: Let_def clampPosition_Fin)
qed

section \<open>Zoom round trip\<close>

lemma clamp_id:
  fixes lo q :: real
  shows "lo \<le> q \<Longrightarrow> q \<le> 0 \<Longrightarrow> min 0 (max lo q) = q"
  by simp

lemma zoom_in_within:
  fixes cw iw z z' p :: real
  assumes "0 \<le> cw" "0 < z" "z \<le> z'" "cw - iw * z \<le> p" "p \<le> 0"
  shows "cw - iw * z' \<le> cw / 2 - (cw / 2 - p) * (z' / z) \<and> cw / 2 - (cw / 2 - p) * (z' / z) \<le> 0"
proof -
  define k where "k = z' / z"
  have k: "1 \<le> k" using assms(2,3) by (simp add: k_def)
  have z': "z' = z * k" using assms(2) by (simp add: k_def)
  have "(cw / 2 - p) * 1 \<le> (cw / 2 - p) * k"
    using k assms(1,5) by (intro mult_left_mono) simp_all
  then have "cw / 2 - p \<le> (cw / 2 - p) * k"
    by simp
  then have up: "cw / 2 - (cw / 2 - p) * k \<le> 0"
    using assms(1,5) by linarith
  have "(cw - p) * k \<le> (iw * z) * k"
    using assms(4) k by (intro mult_right_mono) simp_all
  moreover have "(cw / 2) * 1 \<le> (cw / 2) * k"
    using k assms(1) by (intro mult_left_mono) simp_all
  ultimately have "cw - iw * (z * k) \<le> cw / 2 - (cw / 2 - p) * k"
    by (simp add: algebra_simps)
  then have "cw - iw * z' \<le> cw / 2 - (cw / 2 - p) * k"
    by (simp only: z')
  with up show ?thesis
    unfolding k_def by blast
qed

lemma anchor_inverse:
  fixes c p z z' :: real
  assumes "z \<noteq> 0" "z' \<noteq> 0"
  shows "c - (c - (c - (c - p) * (z' / z))) * (z / z') = p"
  using assms by simp

text \<open>
  Claim C6. Take a state whose position for a target lies within the clamp bounds of
  its zoom \<open>z\<close>. A zoom change to \<open>z'\<close> followed by a zoom change back to \<open>z\<close> gives the
  state back, position included, whenever the clamp of the first change leaves the
  re-anchored position where it is; that is always so when \<open>z \<le> z'\<close>. Arithmetic is
  exact, so no rounding enters.
\<close>

theorem zoom_round_trip:
  assumes "imageInfo st = Some info"
    and "find (\<lambda>t. target_id t = ident) (dynamicTargets st) = Some target"
    and "layout_container (calculateLayout target info) = \<lparr>size_width = Fin cw, size_height = Fin ch\<rparr>"
    and "layout_image (calculateLayout target info) = \<lparr>size_width = Fin iw, size_height = Fin ih\<rparr>"
    and "0 \<le> cw" "0 \<le> ch"
    and "zoomLevels st ident = Some (Fin z)" "0 < z" "0 < z'"
    and "cropPositions st ident = Some \<lparr>vec_x = Fin px, vec_y = Fin py\<rparr>"
    and "cw - iw * z \<le> px" "px \<le> 0" "ch - ih * z \<le> py" "py \<le> 0"
    and "z \<le> z' \<or>
         (cw - iw * z' \<le> cw / 2 - (cw / 2 - px) * (z' / z) \<and> cw / 2 - (cw / 2 - px) * (z' / z) \<le> 0 \<and>
          ch - ih * z' \<le> ch / 2 - (ch / 2 - py) * (z' / z) \<and> ch / 2 - (ch / 2 - py) * (z' / z) \<le> 0)"
  shows "handleZoomChange ident (Fin z) (handleZoomChange ident (Fin z') st) = st"
proof -
  define qx where "qx = cw / 2 - (cw / 2 - px) * (z' / z)"
  define qy where "qy = ch / 2 - (ch / 2 - py) * (z' / z)"
  have within: "cw - iw * z' \<le> qx \<and> qx \<le> 0 \<and> ch - ih * z' \<le> qy \<and> qy \<le> 0"
    using assms(15)
  proof
    assume "z \<le> z'"
    then show ?thesis
      unfolding qx_def qy_def
      using zoom_in_within [OF assms(5) assms(8) _ assms(11,12)]
        zoom_in_within [OF assms(6) assms(8) _ assms(13,14)] by blast
  next
    assume "cw - iw * z' \<le> cw / 2 - (cw / 2 - px) * (z' / z) \<and> cw / 2 - (cw / 2 - px) * (z' / z) \<le> 0 \<and>
          ch - ih * z' \<le> ch / 2 - (ch / 2 - py) * (z' / z) \<and> ch / 2 - (ch / 2 - py) * (z' / z) \<le> 0"
    then show ?thesis
      unfolding qx_def qy_def .
  qed
  have z0: "z \<noteq> 0" "z' \<noteq> 0" using assms(8,9) by simp_all
  define st1 where "st1 = handleZoomChange ident (Fin z') st"
  have cq: "min 0 (max (cw - iw * z') qx) = qx" "min 0 (max (ch - ih * z') qy) = qy"
    using within by (simp_all only: clamp_id)
  have st1: "st1 = st\<lparr>zoomLevels := (zoomLevels st)(ident \<mapsto> Fin z'),
              cropPositions := (cropPositions st)(ident \<mapsto> \<lparr>vec_x = Fin qx, vec_y = Fin qy\<rparr>)\<rparr>"
    unfolding st1_def
      handleZoomChange_Fin [OF assms(1-4) assms(7) z0(1) assms(10)]
      qx_def [symmetric] qy_def [symmetric] cq ..
  have s1: "imageInfo st1 = Some info"
    "find (\<lambda>t. target_id t = ident) (dynamicTargets st1) = Some target"
    "zoomLevels st1 ident = Some (Fin z')"
    "cropPositions st1 ident = Some \<lparr>vec_x = Fin qx, vec_y = Fin qy\<rparr>"
    using assms(1,2) by (simp_all add: st1)
  have inv: "cw / 2 - (cw / 2 - qx) * (z / z') = px" "ch / 2 - (ch / 2 - qy) * (z / z') = py"
    unfolding qx_def qy_def by (rule anchor_inverse [OF z0])+
  have cp: "min 0 (max (cw - iw * z) px) = px" "min 0 (max (ch - ih * z) py) = py"
    using assms(11-14) by (simp_all only: clamp_id)
  have "handleZoomChange ident (Fin z) st1 =
          st1\<lparr>zoomLevels := (zoomLevels st1)(ident \<mapsto> Fin z),
              cropPositions := (cropPositions st1)(ident \<mapsto> \<lparr>vec_x = Fin px, vec_y = Fin py\<rparr>)\<rparr>"
    unfolding handleZoomChange_Fin [OF s1(1,2) assms(3,4) s1(3) z0(2) s1(4)] inv cp ..
  also have "\<dots> = st"
    using assms(7,10) by (simp add: st1 map_upd_triv)
  finally show ?thesis
    unfolding st1_def .
qed

theorem zoom_round_trip_witness:
  "handleZoomChange ''mobile'' (Fin 1) (handleZoomChange ''mobile'' (Fin 2) (uploaded 3 3)) =
     uploaded 3 3"
proof -
  have t: "dynamicTargets (uploaded 3 3) =
     [\<lparr>target_id = ''mobile'', target_width = Fin 3, target_height = Fin 2,
       target_suffix = Some ''_S'', target_label = Some ''Mobile''\<rparr>,
      \<lparr>target_id = ''desktop'', target_width = Fin 3, target_height = Fin 1,
        target_suffix = Some ''_L'', target_label = Some ''Desktop''\<rparr>]"
    by (simp add: uploaded_def handleImageUpload_def resetState_def initialState_def Let_def
        map_fitTarget fitTarget_3_3_mobile
      fitTarget_3_3_desktop [unfolded One_nat_def])
  have s: "imageInfo (uploaded 3 3) = Some (sampleImage 3 3)"
    "find (\<lambda>t. target_id t = ''mobile'') (dynamicTargets (uploaded 3 3)) =
       Some \<lparr>target_id = ''mobile'', target_width = Fin 3, target_height = Fin 2,
             target_suffix = Some ''_S'', target_label = Some ''Mobile''\<rparr>"
    unfolding t
    by (simp_all add: uploaded_def handleImageUpload_def resetState_def initialState_def Let_def
        sampleImage_def sampleFile_def)
  have l: "layout_container (calculateLayout \<lparr>target_id = ''mobile'', target_width = Fin 3,
             target_height = Fin 2, target_suffix = Some ''_S'', target_label = Some ''Mobile''\<rparr>
             (sampleImage 3 3)) = \<lparr>size_width = Fin 450, size_height = Fin 300\<rparr>"
    "layout_image (calculateLayout \<lparr>target_id = ''mobile'', target_width = Fin 3,
             target_height = Fin 2, target_suffix = Some ''_S'', target_label = Some ''Mobile''\<rparr>
             (sampleImage 3 3)) = \<lparr>size_width = Fin 450, size_height = Fin 450\<rparr>"
    by (simp_all add: sampleImage_def calculateLayout_def PREVIEW_WIDTH_def Let_def)
  have z: "zoomLevels (uploaded 3 3) ''mobile'' = Some (Fin 1)"
    by (simp add: uploaded_def handleImageUpload_def resetState_def initialState_def Let_def
        map_fitTarget fitTarget_3_3_mobile
      fitTarget_3_3_desktop [unfolded One_nat_def])
  have p: "cropPositions (uploaded 3 3) ''mobile'' = Some \<lparr>vec_x = Fin 0, vec_y = Fin (- 75)\<rparr>"
    by (simp add: uploaded_def handleImageUpload_def resetState_def initialState_def Let_def
        map_fitTarget fitTarget_3_3_mobile
      fitTarget_3_3_desktop [unfolded One_nat_def] calculateLayout_def PREVIEW_WIDTH_def)
  have n: "(0::real) \<le> 450" "(0::real) \<le> 300" "(0::real) < 1" "(0::real) < 2"
    "450 - 450 * 1 \<le> (0::real)" "(0::real) \<le> 0" "300 - 450 * 1 \<le> (- 75::real)" "(- 75::real) \<le> 0"
    by simp_all
  have i: "(1::real) \<le> 2 \<or>
         (450 - 450 * 2 \<le> 450 / 2 - (450 / 2 - 0) * (2 / 1) \<and> 450 / 2 - (450 / 2 - 0) * (2 / 1) \<le> (0::real) \<and>
          300 - 450 * 2 \<le> 300 / 2 - (300 / 2 - (- 75)) * (2 / 1) \<and> 300 / 2 - (300 / 2 - (- 75)) * (2 / 1) \<le> (0::real))"
    by simp
  show ?thesis
    by (rule zoom_round_trip [OF s l n(1,2) z n(3,4) p n(5-8) i])
qed

section \<open>Source rectangle\<close>

lemma Math_round_Fin: "Math_round (Fin a) = Fin (of_int (round a))"
  by (simp add: round_def)

lemma round_sum_le:
  fixes a b w :: real
  assumes "a + b \<le> w"
  shows "real_of_int (round a + round b) \<le> w + 1"
proof -
  have "real_of_int (round a) \<le> a + 1 / 2" "real_of_int (round b) \<le> b + 1 / 2"
    by (rule of_int_round_le)+
  with assms show ?thesis by simp
qed

lemma round_nonneg:
  fixes a :: real
  shows "0 \<le> a \<Longrightarrow> 0 \<le> round a"
  by (simp add: round_def)

text \<open>
  What does hold for a position within the clamp bounds and a zoom of at least 1: the
  source rectangle before rounding lies within the image, and after rounding its
  origin is not negative and its far edges exceed the image by at most one pixel.
\<close>

lemma source_rectangle_bounds:
  assumes "0 < tw" "0 \<le> th" "0 < W" "0 < H"
    and "target_width t = Fin tw" "target_height t = Fin th"
    and "img_width i = Fin W" "img_height i = Fin H"
    and "layout_container (calculateLayout t i) = \<lparr>size_width = Fin cw, size_height = Fin ch\<rparr>"
    and "layout_image (calculateLayout t i) = \<lparr>size_width = Fin iw, size_height = Fin ih\<rparr>"
    and "or_default (zoomLevels st (target_id t)) (Fin 1) = Fin z" "1 \<le> z"
    and "cw - iw * z \<le> px" "px \<le> 0" "ch - ih * z \<le> py" "py \<le> 0"
  shows "(let f = W / (iw * z);
              call = drawCall st i t \<lparr>vec_x = Fin px, vec_y = Fin py\<rparr>
          in sx call = Fin (of_int (round (\<bar>px\<bar> * f))) \<and> sy call = Fin (of_int (round (\<bar>py\<bar> * f)))
             \<and> sWidth call = Fin (of_int (round (cw * f)))
             \<and> sHeight call = Fin (of_int (round (ch * f)))
             \<and> 0 \<le> \<bar>px\<bar> * f \<and> \<bar>px\<bar> * f + cw * f \<le> W
             \<and> 0 \<le> \<bar>py\<bar> * f \<and> \<bar>py\<bar> * f + ch * f \<le> H
             \<and> 0 \<le> round (\<bar>px\<bar> * f) \<and> 0 \<le> round (cw * f)
             \<and> real_of_int (round (\<bar>px\<bar> * f) + round (cw * f)) \<le> W + 1
             \<and> 0 \<le> round (\<bar>py\<bar> * f) \<and> 0 \<le> round (ch * f)
             \<and> real_of_int (round (\<bar>py\<bar> * f) + round (ch * f)) \<le> H + 1)"
proof -
  obtain ch' iw' ih' where c: "calculateLayout t i =
             \<lparr>layout_container = \<lparr>size_width = Fin 450, size_height = Fin ch'\<rparr>,
              layout_image = \<lparr>size_width = Fin iw', size_height = Fin ih'\<rparr>,
              scaleFactor = Fin (W / iw')\<rparr>"
     "0 \<le> ch'" "450 \<le> iw'" "ch' \<le> ih'" "0 < ih'" "iw' * H = ih' * W"
    using calculateLayout_cover [OF assms(1-8)] by blast
  have eq: "cw = 450" "ch = ch'" "iw = iw'" "ih = ih'"
    using assms(9,10) c(1) by simp_all
  have ch: "0 \<le> ch" and iw: "0 < iw" and ih: "0 < ih" and r: "iw * H = ih * W"
    using c(2-6) eq by simp_all
  have z: "0 < z" using assms(12) by simp
  define f where "f = W / (iw * z)"
  have f: "0 < f" using assms(3) iw z by (simp add: f_def)
  have iwzf: "iw * z * f = W" using iw z by (simp add: f_def)
  have ihzf: "ih * z * f = H"
  proof -
    have "ih * z * f = (ih * W) / iw" using z by (simp add: f_def)
    also have "\<dots> = (iw * H) / iw" by (simp only: r)
    also have "\<dots> = H" using iw by simp
    finally show ?thesis .
  qed
  have x: "0 \<le> \<bar>px\<bar> * f" "\<bar>px\<bar> * f + cw * f \<le> W"
  proof -
    show "0 \<le> \<bar>px\<bar> * f" using f by simp
    have "\<bar>px\<bar> + cw \<le> iw * z" using assms(13,14) by simp
    then have "(\<bar>px\<bar> + cw) * f \<le> iw * z * f"
      using f by (intro mult_right_mono) simp_all
    then show "\<bar>px\<bar> * f + cw * f \<le> W"
      by (simp only: iwzf distrib_right)
  qed
  have y: "0 \<le> \<bar>py\<bar> * f" "\<bar>py\<bar> * f + ch * f \<le> H"
  proof -
    show "0 \<le> \<bar>py\<bar> * f" using f by simp
    have "\<bar>py\<bar> + ch \<le> ih * z" using assms(15,16) by simp
    then have "(\<bar>py\<bar> + ch) * f \<le> ih * z * f"
      using f by (intro mult_right_mono) simp_all
    then show "\<bar>py\<bar> * f + ch * f \<le> H"
      by (simp only: ihzf distrib_right)
  qed
  have cwf: "0 \<le> cw * f" "0 \<le> ch * f"
    using f ch eq(1) by simp_all
  have call: "sx (drawCall st i t \<lparr>vec_x = Fin px, vec_y = Fin py\<rparr>) = Fin (of_int (round (\<bar>px\<bar> * f)))"
    "sy (drawCall st i t \<lparr>vec_x = Fin px, vec_y = Fin py\<rparr>) = Fin (of_int (round (\<bar>py\<bar> * f)))"
    "sWidth (drawCall st i t \<lparr>vec_x = Fin px, vec_y = Fin py\<rparr>) = Fin (of_int (round (cw * f)))"
    "sHeight (drawCall st i t \<lparr>vec_x = Fin px, vec_y = Fin py\<rparr>) = Fin (of_int (round (ch * f)))"
    using iw z assms(7,9,10,11)
    by (simp_all add: drawCall_def Let_def f_def round_def)
  show ?thesis
    unfolding Let_def f_def [symmetric]
    using call x y round_nonneg [OF x(1)] round_nonneg [OF y(1)] round_nonneg [OF cwf(1)]
      round_nonneg [OF cwf(2)] round_sum_le [OF x(2)] round_sum_le [OF y(2)]
    by blast
qed

lemma uploaded_1001_mobile:
  "imageInfo (uploaded 1001 1001) = Some (sampleImage 1001 1001)"
  "dynamicTargets (uploaded 1001 1001) =
         [\<lparr>target_id = ''mobile'', target_width = Fin 1001, target_height = Fin 917,
           target_suffix = Some ''_S'', target_label = Some ''Mobile''\<rparr>,
          \<lparr>target_id = ''desktop'', target_width = Fin 1001, target_height = Fin 430,
           target_suffix = Some ''_L'', target_label = Some ''Desktop''\<rparr>]"
  "zoomLevels (uploaded 1001 1001) ''mobile'' = Some (Fin 1)"
  "targetScales (uploaded 1001 1001) ''mobile'' = Some (Fin 1)"
  "cropPositions (uploaded 1001 1001) ''mobile'' = Some \<lparr>vec_x = Fin 0, vec_y = Fin (- (2700 / 143))\<rparr>"
  by (simp_all add: uploaded_def handleImageUpload_def resetState_def initialState_def Let_def
      map_fitTarget fitTarget_1001_1001_mobile
      fitTarget_1001_1001_desktop [unfolded One_nat_def] calculateLayout_def PREVIEW_WIDTH_def sampleImage_def sampleFile_def)

lemma mobile_layout_1001:
  "calculateLayout \<lparr>target_id = ''mobile'', target_width = Fin 1001, target_height = Fin 917,
           target_suffix = Some ''_S'', target_label = Some ''Mobile''\<rparr> (sampleImage 1001 1001) =
     \<lparr>layout_container = \<lparr>size_width = Fin 450, size_height = Fin (58950 / 143)\<rparr>,
      layout_image = \<lparr>size_width = Fin 450, size_height = Fin 450\<rparr>,
      scaleFactor = Fin (1001 / 450)\<rparr>"
  by (simp add: calculateLayout_def PREVIEW_WIDTH_def sampleImage_def Let_def)

lemma zoomed_1001:
  "handleZoomChange ''mobile'' (Fin 2) (uploaded 1001 1001) =
     (uploaded 1001 1001)\<lparr>zoomLevels := (zoomLevels (uploaded 1001 1001))(''mobile'' \<mapsto> Fin 2),
        cropPositions := (cropPositions (uploaded 1001 1001))(''mobile'' \<mapsto>
           \<lparr>vec_x = Fin (- 225), vec_y = Fin (- (34875 / 143))\<rparr>)\<rparr>"
proof -
  have f: "find (\<lambda>t. target_id t = ''mobile'') (dynamicTargets (uploaded 1001 1001)) =
      Some \<lparr>target_id = ''mobile'', target_width = Fin 1001, target_height = Fin 917,
           target_suffix = Some ''_S'', target_label = Some ''Mobile''\<rparr>"
    by (simp add: uploaded_1001_mobile)
  have l: "layout_container (calculateLayout \<lparr>target_id = ''mobile'', target_width = Fin 1001, target_height = Fin 917,
           target_suffix = Some ''_S'', target_label = Some ''Mobile''\<rparr> (sampleImage 1001 1001)) =
       \<lparr>size_width = Fin 450, size_height = Fin (58950 / 143)\<rparr>"
    "layout_image (calculateLayout \<lparr>target_id = ''mobile'', target_width = Fin 1001, target_height = Fin 917,
           target_suffix = Some ''_S'', target_label = Some ''Mobile''\<rparr> (sampleImage 1001 1001)) =
       \<lparr>size_width = Fin 450, size_height = Fin 450\<rparr>"
    by (simp_all add: mobile_layout_1001)
  have z: "(1::real) \<noteq> 0" by simp
  show ?thesis
    unfolding handleZoomChange_Fin [OF uploaded_1001_mobile(1) f l uploaded_1001_mobile(3) z uploaded_1001_mobile(5)]
    by simp
qed

lemma edgeScenario_eq:
  "edgeScenario =
     (uploaded 1001 1001)\<lparr>zoomLevels := (zoomLevels (uploaded 1001 1001))(''mobile'' \<mapsto> Fin 2),
        cropPositions := (cropPositions (uploaded 1001 1001))(''mobile'' \<mapsto>
           \<lparr>vec_x = Fin (- 450), vec_y = Fin (- 100)\<rparr>)\<rparr>"
  unfolding edgeScenario_def zoomed_1001
  by (simp add: Let_def displayLayout_def handleMouseMove_def handlePositionChange_def
      uploaded_1001_mobile mobile_layout_1001 or_default_def clampPosition_def)

text \<open>
  Claim C5 asks that the rounded source rectangle never leaves the image. In the edge
  scenario (image 1001 \<times> 1001, first target, zoom 2, position (-450, -100), which the
  clamp accepts) the \<open>drawImage\<close> call gets the source origin 501 and the source width
  501: both halves of 1001 are rounded up, and the rectangle ends at 1002, one pixel
  beyond the image.
\<close>

theorem source_rectangle_overshoot:
  "imageInfo edgeScenario = Some (sampleImage 1001 1001)
   \<and> zoomLevels edgeScenario ''mobile'' = Some (Fin 2)
   \<and> cropPositions edgeScenario ''mobile'' = Some \<lparr>vec_x = Fin (- 450), vec_y = Fin (- 100)\<rparr>
   \<and> displayLayout edgeScenario (sampleImage 1001 1001) (hd (dynamicTargets edgeScenario)) =
        (\<lparr>size_width = Fin 450, size_height = Fin (58950 / 143)\<rparr>,
         \<lparr>size_width = Fin 900, size_height = Fin 900\<rparr>)
   \<and> clampPosition \<lparr>size_width = Fin 450, size_height = Fin (58950 / 143)\<rparr>
         \<lparr>size_width = Fin 900, size_height = Fin 900\<rparr> \<lparr>vec_x = Fin (- 450), vec_y = Fin (- 100)\<rparr>
        = \<lparr>vec_x = Fin (- 450), vec_y = Fin (- 100)\<rparr>
   \<and> drawCall edgeScenario (sampleImage 1001 1001) (hd (dynamicTargets edgeScenario))
         \<lparr>vec_x = Fin (- 450), vec_y = Fin (- 100)\<rparr> =
        \<lparr>sx = Fin 501, sy = Fin 111, sWidth = Fin 501, sHeight = Fin 459,
         dWidth = Fin 1001, dHeight = Fin 917\<rparr>
   \<and> \<not> (Fin 501 + Fin 501 \<le> img_width (sampleImage 1001 1001))"
  unfolding edgeScenario_eq
  by (simp add: uploaded_1001_mobile mobile_layout_1001 displayLayout_def drawCall_def
      or_default_def clampPosition_Fin Let_def sampleImage_def [of 1001 1001, THEN arg_cong [of _ _ img_width]])

subsection \<open>A round trip through a smaller zoom\<close>

text \<open>
  Where the clamp does move the re-anchored position, a zoom change and its reverse
  need not give the position back: from the edge scenario, zooming out to 1 pulls the
  position to (0, 0), and zooming in to 2 again puts it at (-225, -206.1...), not at
  (-450, -100).
\<close>

lemma zoom_out_and_back_clamped:
  "cropPositions edgeScenario ''mobile'' = Some \<lparr>vec_x = Fin (- 450), vec_y = Fin (- 100)\<rparr>
   \<and> cropPositions (handleZoomChange ''mobile'' (Fin 1) edgeScenario) ''mobile'' =
        Some \<lparr>vec_x = Fin 0, vec_y = Fin 0\<rparr>
   \<and> cropPositions (handleZoomChange ''mobile'' (Fin 2)
          (handleZoomChange ''mobile'' (Fin 1) edgeScenario)) ''mobile'' =
        Some \<lparr>vec_x = Fin (- 225), vec_y = Fin (- (29475 / 143))\<rparr>"
  unfolding edgeScenario_eq
  by (simp add: handleZoomChange_def uploaded_1001_mobile mobile_layout_1001 or_default_def Let_def)

section \<open>Export batch\<close>

lemma Promise_all_rejects:
  "\<exists>p\<in>set ps. isl p \<Longrightarrow> isl (Promise_all ps)"
proof (induction ps)
  case Nil
  then show ?case by simp
next
  case (Cons p ps)
  show ?case
  proof (cases p)
    case (Inl e)
    then show ?thesis by simp
  next
    case (Inr v)
    with Cons.prems have "\<exists>q\<in>set ps. isl q" by auto
    then have "isl (Promise_all ps)" by (rule Cons.IH)
    with Inr show ?thesis by (cases "Promise_all ps") simp_all
  qed
qed

lemma Promise_all_resolves:
  "\<forall>p\<in>set ps. \<not> isl p \<Longrightarrow> Promise_all ps = Inr (map projr ps)"
proof (induction ps)
  case Nil
  then show ?case by simp
next
  case (Cons p ps)
  then obtain v where "p = Inr v" by (cases p) auto
  with Cons show ?case by simp
qed

lemma fold_upd_map_of:
  "fold (\<lambda>curr acc. acc(fst curr \<mapsto> snd curr)) rs m = m ++ map_of (rev rs)"
proof (induction rs arbitrary: m)
  case Nil
  then show ?case by simp
next
  case (Cons r rs)
  have "fold (\<lambda>curr acc. acc(fst curr \<mapsto> snd curr)) (r # rs) m =
          fold (\<lambda>curr acc. acc(fst curr \<mapsto> snd curr)) rs (m(fst r \<mapsto> snd r))"
    by (simp only: fold_simps)
  also have "\<dots> = m(fst r \<mapsto> snd r) ++ map_of (rev rs)"
    by (rule Cons.IH)
  also have "\<dots> = m ++ map_of (rev (r # rs))"
    by (cases r) (simp add: map_add_upd_left)
  finally show ?case .
qed

lemma cropTarget_isl:
  "isl (cropTarget getContext toBlob st info t) =
     (\<not> getContext (target_id t) \<or>
      (case cropPositions st (target_id t) of
         None \<Rightarrow> True
       | Some pos \<Rightarrow> toBlob (target_id t) (drawCall st info t pos) (quality st) = None))"
  by (simp add: cropTarget_def split: option.splits)

lemma cropTarget_fst:
  "\<not> isl (cropTarget getContext toBlob st info t) \<Longrightarrow>
     fst (projr (cropTarget getContext toBlob st info t)) = target_id t"
  by (simp add: cropTarget_def split: option.splits if_splits)

text \<open>
  Claim C7. In a crop operation on a state with an image: if for some target the
  drawing context is not obtained, the stored position is missing, or the encoder
  gives no blob, then the stored results are exactly those of before and the failure
  notice is shown; if every target succeeds, the stored results are replaced by the
  complete set, one entry per target id, and no notice is shown. So the stored results
  change only when every target has succeeded.
\<close>

theorem atomic_export_batch:
  assumes "imageInfo st = Some info"
  shows "(let outcome = cropTarget getContext toBlob st info;
              st' = handleCrop getContext toBlob st
          in ((\<exists>t\<in>set (dynamicTargets st).
                  \<not> getContext (target_id t) \<or> cropPositions st (target_id t) = None \<or>
                  toBlob (target_id t) (drawCall st info t (the (cropPositions st (target_id t))))
                    (quality st) = None) \<longrightarrow>
                croppedImages st' = croppedImages st \<and>
                alerts st' = alerts st @
                  [''An error occurred during cropping. Please check the console.''])
             \<and> ((\<forall>t\<in>set (dynamicTargets st). \<not> isl (outcome t)) \<longrightarrow>
                  croppedImages st' = map_of (rev (map (\<lambda>t. projr (outcome t)) (dynamicTargets st))) \<and>
                  dom (croppedImages st') = target_id ` set (dynamicTargets st) \<and>
                  alerts st' = alerts st)
             \<and> (croppedImages st' = croppedImages st \<or>
                  (\<forall>t\<in>set (dynamicTargets st). \<not> isl (outcome t))))"
proof -
  define outcome where "outcome = cropTarget getContext toBlob st info"
  define st' where "st' = handleCrop getContext toBlob st"
  define msg where "msg = ''An error occurred during cropping. Please check the console.''"
  have fail: "croppedImages st' = croppedImages st \<and> alerts st' = alerts st @ [msg]"
    if "\<exists>t\<in>set (dynamicTargets st). isl (outcome t)"
  proof -
    from that have "\<exists>p\<in>set (map outcome (dynamicTargets st)). isl p" by simp
    then have "isl (Promise_all (map outcome (dynamicTargets st)))"
      by (rule Promise_all_rejects)
    then obtain e where "Promise_all (map outcome (dynamicTargets st)) = Inl e"
      by (cases "Promise_all (map outcome (dynamicTargets st))") simp_all
    then show ?thesis
      using assms by (simp add: st'_def handleCrop_def outcome_def msg_def)
  qed
  have isl: "isl (outcome t)"
    if "\<not> getContext (target_id t) \<or> cropPositions st (target_id t) = None \<or>
        toBlob (target_id t) (drawCall st info t (the (cropPositions st (target_id t)))) (quality st) = None"
    for t
    using that unfolding outcome_def cropTarget_isl by (auto split: option.splits)
  have ok: "croppedImages st' = map_of (rev (map (\<lambda>t. projr (outcome t)) (dynamicTargets st))) \<and>
            dom (croppedImages st') = target_id ` set (dynamicTargets st) \<and> alerts st' = alerts st"
    if all: "\<forall>t\<in>set (dynamicTargets st). \<not> isl (outcome t)"
  proof -
    from all have "\<forall>p\<in>set (map outcome (dynamicTargets st)). \<not> isl p" by simp
    then have "Promise_all (map outcome (dynamicTargets st)) =
                 Inr (map projr (map outcome (dynamicTargets st)))"
      by (rule Promise_all_resolves)
    then have c: "croppedImages st' = map_of (rev (map (\<lambda>t. projr (outcome t)) (dynamicTargets st)))"
      and a: "alerts st' = alerts st"
      using assms
      by (simp_all add: st'_def handleCrop_def outcome_def [symmetric] fold_upd_map_of comp_def)
    have "fst ` set (map (\<lambda>t. projr (outcome t)) (dynamicTargets st)) = target_id ` set (dynamicTargets st)"
      using all cropTarget_fst [of getContext toBlob st info]
      by (force simp: outcome_def image_iff)
    then have "dom (croppedImages st') = target_id ` set (dynamicTargets st)"
      unfolding c by (simp add: dom_map_of_conv_image_fst)
    with c a show ?thesis by simp
  qed
  have "croppedImages st' = croppedImages st \<or> (\<forall>t\<in>set (dynamicTargets st). \<not> isl (outcome t))"
    using fail by blast
  with fail isl ok show ?thesis
    unfolding Let_def outcome_def [symmetric] st'_def [symmetric] msg_def [symmetric]
    by blast
qed

lemma uploaded_3_3:
  "imageInfo (uploaded 3 3) = Some (sampleImage 3 3)"
  "dynamicTargets (uploaded 3 3) =
     [\<lparr>target_id = ''mobile'', target_width = Fin 3, target_height = Fin 2,
       target_suffix = Some ''_S'', target_label = Some ''Mobile''\<rparr>,
      \<lparr>target_id = ''desktop'', target_width = Fin 3, target_height = Fin 1,
        target_suffix = Some ''_L'', target_label = Some ''Desktop''\<rparr>]"
  "cropPositions (uploaded 3 3) ''mobile'' = Some \<lparr>vec_x = Fin 0, vec_y = Fin (- 75)\<rparr>"
  "cropPositions (uploaded 3 3) ''desktop'' = Some \<lparr>vec_x = Fin 0, vec_y = Fin (- 150)\<rparr>"
  "zoomLevels (uploaded 3 3) ''mobile'' = Some (Fin 1)"
  "zoomLevels (uploaded 3 3) ''desktop'' = Some (Fin 1)"
  "targetScales (uploaded 3 3) ''mobile'' = Some (Fin 1)"
  "targetScales (uploaded 3 3) ''desktop'' = Some (Fin 1)"
  "alerts (uploaded 3 3) = []"
  by (simp_all add: uploaded_def handleImageUpload_def resetState_def initialState_def Let_def
      map_fitTarget fitTarget_3_3_mobile
      fitTarget_3_3_desktop [unfolded One_nat_def] calculateLayout_def PREVIEW_WIDTH_def sampleImage_def sampleFile_def)

theorem atomic_export_batch_witness:
  "(let st = (uploaded 3 3)\<lparr>croppedImages := [''mobile'' \<mapsto> \<lparr>url = ''blob:old'', result_size = Fin 7\<rparr>]\<rparr>;
        toBlob = (\<lambda>ident call q. Some \<lparr>url = ''blob:'' @ ident, result_size = Fin 100\<rparr>);
        failed = handleCrop (\<lambda>ident. ident \<noteq> ''desktop'') toBlob st;
        done = handleCrop (\<lambda>ident. True) toBlob st
    in croppedImages failed = croppedImages st
       \<and> alerts failed = [''An error occurred during cropping. Please check the console.'']
       \<and> croppedImages done ''mobile'' = Some \<lparr>url = ''blob:mobile'', result_size = Fin 100\<rparr>
       \<and> croppedImages done ''desktop'' = Some \<lparr>url = ''blob:desktop'', result_size = Fin 100\<rparr>
       \<and> alerts done = [])"
proof -
  define st where "st = (uploaded 3 3)\<lparr>croppedImages := [''mobile'' \<mapsto> \<lparr>url = ''blob:old'', result_size = Fin 7\<rparr>]\<rparr>"
  define toBlob :: "string \<Rightarrow> DrawCall \<Rightarrow> number \<Rightarrow> CroppedResult option"
    where "toBlob = (\<lambda>ident call q. Some \<lparr>url = ''blob:'' @ ident, result_size = Fin 100\<rparr>)"
  have i: "imageInfo st = Some (sampleImage 3 3)"
    by (simp add: st_def uploaded_3_3)
  have s: "dynamicTargets st = dynamicTargets (uploaded 3 3)" "cropPositions st = cropPositions (uploaded 3 3)"
    "alerts st = []"
    by (simp_all add: st_def uploaded_3_3)
  from atomic_export_batch [OF i, of "\<lambda>ident. ident \<noteq> ''desktop''" toBlob]
  have 1: "croppedImages (handleCrop (\<lambda>ident. ident \<noteq> ''desktop'') toBlob st) = croppedImages st"
    "alerts (handleCrop (\<lambda>ident. ident \<noteq> ''desktop'') toBlob st) =
       [''An error occurred during cropping. Please check the console.'']"
    by (simp_all add: Let_def s uploaded_3_3)
  from atomic_export_batch [OF i, of "\<lambda>ident. True" toBlob]
  have 2: "croppedImages (handleCrop (\<lambda>ident. True) toBlob st) ''mobile'' =
             Some \<lparr>url = ''blob:mobile'', result_size = Fin 100\<rparr>"
    "croppedImages (handleCrop (\<lambda>ident. True) toBlob st) ''desktop'' =
             Some \<lparr>url = ''blob:desktop'', result_size = Fin 100\<rparr>"
    "alerts (handleCrop (\<lambda>ident. True) toBlob st) = []"
    by (simp_all add: Let_def s uploaded_3_3 cropTarget_def toBlob_def)
  from 1 2 show ?thesis
    unfolding Let_def st_def toBlob_def by simp
qed

section \<open>Upload filter\<close>

text \<open>
  Claim C8. The file an event delivers is the first entry of its file list, the only
  one the handlers read. When its declared type does not start with \<open>image/\<close>, neither
  the file picker's handler nor the drop handler calls \<open>onImageUpload\<close>: with any callback
  the state stays as it is, and a callback that records its calls records none. When
  the type starts with \<open>image/\<close>, both handlers call \<open>onImageUpload\<close> once, with that file.
  An event without a file changes nothing.
\<close>

theorem invalid_upload_rejection:
  "(\<not> startsWith (file_type file) ''image/'' \<longrightarrow>
      handleFileChange onImageUpload (file # files) st = st
      \<and> handleDrop onImageUpload (file # files) st = st
      \<and> handleFileChange (\<lambda>f calls. calls @ [f]) (file # files) [] = []
      \<and> handleDrop (\<lambda>f calls. calls @ [f]) (file # files) [] = [])
   \<and> (startsWith (file_type file) ''image/'' \<longrightarrow>
      handleFileChange onImageUpload (file # files) st = onImageUpload file st
      \<and> handleDrop onImageUpload (file # files) st = onImageUpload file st
      \<and> handleFileChange (\<lambda>f calls. calls @ [f]) (file # files) [] = [file]
      \<and> handleDrop (\<lambda>f calls. calls @ [f]) (file # files) [] = [file])
   \<and> handleFileChange onImageUpload [] st = st
   \<and> handleDrop onImageUpload [] st = st"
  by (simp add: handleFileChange_def handleDrop_def)

theorem invalid_upload_rejection_witness:
  "handleFileChange (handleImageUpload (Some ([], 3, 3)))
     [\<lparr>file_name = ''notes.txt'', file_type = ''text/plain'', file_size = Fin 12\<rparr>] (uploaded 5 4)
     = uploaded 5 4
   \<and> handleDrop (handleImageUpload (Some ([], 3, 3))) [sampleFile] (uploaded 5 4) =
       handleImageUpload (Some ([], 3, 3)) sampleFile (uploaded 5 4)"
proof -
  have n: "\<not> startsWith (file_type \<lparr>file_name = ''notes.txt'', file_type = ''text/plain'',
              file_size = Fin 12\<rparr>) ''image/''"
    by (simp add: startsWith_def)
  have y: "startsWith (file_type sampleFile) ''image/''"
    by (simp add: startsWith_def sampleFile_def)
  from invalid_upload_rejection [of "\<lparr>file_name = ''notes.txt'', file_type = ''text/plain'',
              file_size = Fin 12\<rparr>" "handleImageUpload (Some ([], 3, 3))" "[]" "uploaded 5 4"] n
    invalid_upload_rejection [of sampleFile "handleImageUpload (Some ([], 3, 3))" "[]" "uploaded 5 4"] y
  show ?thesis by blast
qed

section \<open>Output file name\<close>

lemma toString_nat: "toString (Fin (real n)) = show_nat n"
  by simp

text \<open>
  Claim C9. For a target of finite width \<open>w\<close> and height \<open>h\<close>, a finite scale \<open>s\<close> and a base
  name \<open>b\<close>, with the output width \<open>round (w \<cdot> s)\<close> and output height \<open>round (h \<cdot> s)\<close> printed
  in decimal, the file name is \<open>b\<close>, the suffix, \<open>_\<close>, the width, \<open>x\<close>, the height and \<open>.webp\<close>
  when the target has a suffix, and the same without the suffix when it has none.
\<close>

theorem output_filename:
  assumes "target_width t = Fin w" "target_height t = Fin h"
  shows "(let outputWidth = toString (Fin (of_int (round (w * s))));
              outputHeight = toString (Fin (of_int (round (h * s))))
          in getOutputFilename b t (Fin s) =
               (case target_suffix t of
                  Some suffix \<Rightarrow> b @ suffix @ ''_'' @ outputWidth @ ''x'' @ outputHeight @ ''.webp''
                | None \<Rightarrow> b @ ''_'' @ outputWidth @ ''x'' @ outputHeight @ ''.webp''))
         \<and> toString (Fin (real n)) = show_nat n
         \<and> getOutputFilename ''photo'' (fitTarget (Fin 2000) (Fin 1000) (CROP_PRESETS ! 0)) (Fin (3 / 2))
             = ''photo_S_1637x1500.webp''
         \<and> getOutputFilename ''photo'' (hd (dynamicTargets anchorScenario)) (Fin 1)
             = ''photo_1200x1100.webp''"
proof -
  have g: "getOutputFilename b t (Fin s) =
               (case target_suffix t of
                  Some suffix \<Rightarrow> b @ suffix @ ''_'' @ toString (Fin (of_int (round (w * s)))) @ ''x''
                                 @ toString (Fin (of_int (round (h * s)))) @ ''.webp''
                | None \<Rightarrow> b @ ''_'' @ toString (Fin (of_int (round (w * s)))) @ ''x''
                                 @ toString (Fin (of_int (round (h * s)))) @ ''.webp'')"
    unfolding getOutputFilename_def Let_def assms times_number.simps Math_round_Fin
    by (cases "target_suffix t") auto
  have t: "fitTarget (Fin 2000) (Fin 1000) (CROP_PRESETS ! 0) =
             \<lparr>target_id = ''mobile'', target_width = Fin 1091, target_height = Fin 1000,
              target_suffix = Some ''_S'', target_label = Some ''Mobile''\<rparr>"
    by (rule fitTarget_2000_1000_mobile)
  have e1: "getOutputFilename ''photo'' (fitTarget (Fin 2000) (Fin 1000) (CROP_PRESETS ! 0)) (Fin (3 / 2))
             = ''photo_S_1637x1500.webp''"
    unfolding t by (simp add: getOutputFilename_def show_nat.simps digit_def)
  have e2: "getOutputFilename ''photo'' (hd (dynamicTargets anchorScenario)) (Fin 1)
             = ''photo_1200x1100.webp''"
    by (simp add: anchorScenario_def getOutputFilename_def show_nat.simps digit_def)
  show ?thesis
    unfolding Let_def using g e1 e2 toString_nat by blast
qed

theorem output_filename_witness:
  "getOutputFilename ''cat'' \<lparr>target_id = ''desktop'', target_width = Fin 2000, target_height = Fin 859,
      target_suffix = Some ''_L'', target_label = Some ''Desktop''\<rparr> (Fin (5 / 2)) = ''cat_L_5000x2148.webp''"
proof -
  have "target_width \<lparr>target_id = ''desktop'', target_width = Fin 2000, target_height = Fin 859,
      target_suffix = Some ''_L'', target_label = Some ''Desktop''\<rparr> = Fin 2000"
    "target_height \<lparr>target_id = ''desktop'', target_width = Fin 2000, target_height = Fin 859,
      target_suffix = Some ''_L'', target_label = Some ''Desktop''\<rparr> = Fin 859"
    by simp_all
  from output_filename [OF this, of "5 / 2" "''cat''"] show ?thesis
    by (simp add: Let_def round_def show_nat.simps digit_def)
qed

section \<open>Initial centring\<close>

lemma centred_position:
  assumes "0 < tw" "0 \<le> th" "0 < W" "0 < H"
    and "target_width t = Fin tw" "target_height t = Fin th"
    and "img_width i = Fin W" "img_height i = Fin H"
  shows "\<exists>cw ch iw ih.
           layout_container (calculateLayout t i) = \<lparr>size_width = Fin cw, size_height = Fin ch\<rparr>
           \<and> layout_image (calculateLayout t i) = \<lparr>size_width = Fin iw, size_height = Fin ih\<rparr>
           \<and> \<lparr>vec_x = (size_width (layout_container (calculateLayout t i))
                        - size_width (layout_image (calculateLayout t i))) / Fin 2,
               vec_y = (size_height (layout_container (calculateLayout t i))
                        - size_height (layout_image (calculateLayout t i))) / Fin 2\<rparr>
              = \<lparr>vec_x = Fin ((cw - iw) / 2), vec_y = Fin ((ch - ih) / 2)\<rparr>
           \<and> cw \<le> iw \<and> ch \<le> ih
           \<and> cw - iw \<le> (cw - iw) / 2 \<and> (cw - iw) / 2 \<le> 0
           \<and> ch - ih \<le> (ch - ih) / 2 \<and> (ch - ih) / 2 \<le> 0"
proof -
  obtain ch iw ih where c: "calculateLayout t i =
             \<lparr>layout_container = \<lparr>size_width = Fin 450, size_height = Fin ch\<rparr>,
              layout_image = \<lparr>size_width = Fin iw, size_height = Fin ih\<rparr>,
              scaleFactor = Fin (W / iw)\<rparr>"
     "450 \<le> iw" "ch \<le> ih"
    using calculateLayout_cover [OF assms] by blast
  show ?thesis
    unfolding c(1) using c(2,3)
    by (intro exI [of _ 450] exI [of _ ch] exI [of _ iw] exI [of _ ih]) simp
qed

text \<open>
  Claim C10. After an upload decoded to a raster of natural size \<open>W \<times> H\<close> (both positive),
  the targets are the fitted presets, and for every target, with its cover layout
  \<open>(cw, ch)\<close>, \<open>(iw, ih)\<close>: the stored position is \<open>((cw - iw) / 2, (ch - ih) / 2)\<close>, the
  stored zoom and output scale are 1, the layout covers the container, and the
  position lies between \<open>cw - iw\<close> and 0 and between \<open>ch - ih\<close> and 0. This includes the
  images so small that a target's floored height is 0.
\<close>

theorem initial_centering:
  fixes W H :: nat
  assumes "0 < W" "0 < H"
  shows "(let st' = handleImageUpload (Some (src, W, H)) file st;
              info = \<lparr>img_src = src, img_width = Fin (real W), img_height = Fin (real H),
                      img_name = removeExtension (file_name file), img_size = file_size file\<rparr>
          in imageInfo st' = Some info
             \<and> dynamicTargets st' = map (fitTarget (Fin (real W)) (Fin (real H))) CROP_PRESETS
             \<and> (\<forall>t\<in>set (dynamicTargets st').
                  \<exists>cw ch iw ih.
                    layout_container (calculateLayout t info) = \<lparr>size_width = Fin cw, size_height = Fin ch\<rparr>
                    \<and> layout_image (calculateLayout t info) = \<lparr>size_width = Fin iw, size_height = Fin ih\<rparr>
                    \<and> cropPositions st' (target_id t) =
                         Some \<lparr>vec_x = Fin ((cw - iw) / 2), vec_y = Fin ((ch - ih) / 2)\<rparr>
                    \<and> zoomLevels st' (target_id t) = Some (Fin 1)
                    \<and> targetScales st' (target_id t) = Some (Fin 1)
                    \<and> cw \<le> iw \<and> ch \<le> ih
                    \<and> cw - iw \<le> (cw - iw) / 2 \<and> (cw - iw) / 2 \<le> 0
                    \<and> ch - ih \<le> (ch - ih) / 2 \<and> (ch - ih) / 2 \<le> 0))"
proof -
  define info where "info = \<lparr>img_src = src, img_width = Fin (real W), img_height = Fin (real H),
                      img_name = removeExtension (file_name file), img_size = file_size file\<rparr>"
  define st' where "st' = handleImageUpload (Some (src, W, H)) file st"
  define t1 where "t1 = fitTarget (Fin (real W)) (Fin (real H)) (CROP_PRESETS ! 0)"
  define t2 where "t2 = fitTarget (Fin (real W)) (Fin (real H)) (CROP_PRESETS ! 1)"
  define centre where "centre = (\<lambda>t. \<lparr>vec_x = (size_width (layout_container (calculateLayout t info))
                        - size_width (layout_image (calculateLayout t info))) / Fin 2,
               vec_y = (size_height (layout_container (calculateLayout t info))
                        - size_height (layout_image (calculateLayout t info))) / Fin 2\<rparr>)"
  have presets: "CROP_PRESETS = [CROP_PRESETS ! 0, CROP_PRESETS ! 1]"
    by (simp add: CROP_PRESETS_def)
  have ids: "target_id t1 = ''mobile''" "target_id t2 = ''desktop''"
    by (simp_all add: t1_def t2_def fitTarget_id CROP_PRESETS_def)
  have targets: "map (fitTarget (Fin (real W)) (Fin (real H))) CROP_PRESETS = [t1, t2]"
    by (subst presets) (simp add: t1_def t2_def)
  have s: "imageInfo st' = Some info" "dynamicTargets st' = [t1, t2]"
    "cropPositions st' = [''mobile'' \<mapsto> centre t1, ''desktop'' \<mapsto> centre t2]"
    "zoomLevels st' = [''mobile'' \<mapsto> Fin 1, ''desktop'' \<mapsto> Fin 1]"
    "targetScales st' = [''mobile'' \<mapsto> Fin 1, ''desktop'' \<mapsto> Fin 1]"
    by (simp_all add: st'_def handleImageUpload_def Let_def targets resetState_def ids
        info_def centre_def)
  have i: "img_width info = Fin (real W)" "img_height info = Fin (real H)" "0 < real W" "0 < real H"
    using assms by (simp_all add: info_def)
  have p1: "baseWidth (CROP_PRESETS ! 0) = Fin 1055" "baseHeight (CROP_PRESETS ! 0) = Fin 967"
    and p2: "baseWidth (CROP_PRESETS ! 1) = Fin 1024" "baseHeight (CROP_PRESETS ! 1) = Fin 440"
    by (simp_all add: CROP_PRESETS_def)
  obtain tw1 th1 where d1: "target_width t1 = Fin tw1" "target_height t1 = Fin th1" "0 < tw1" "0 \<le> th1"
    unfolding t1_def using fitTarget_dims [OF assms _ _ p1] by auto
  obtain tw2 th2 where d2: "target_width t2 = Fin tw2" "target_height t2 = Fin th2" "0 < tw2" "0 \<le> th2"
    unfolding t2_def using fitTarget_dims [OF assms _ _ p2] by auto
  define ok where "ok = (\<lambda>t. \<exists>cw ch iw ih.
                    layout_container (calculateLayout t info) = \<lparr>size_width = Fin cw, size_height = Fin ch\<rparr>
                    \<and> layout_image (calculateLayout t info) = \<lparr>size_width = Fin iw, size_height = Fin ih\<rparr>
                    \<and> cropPositions st' (target_id t) =
                         Some \<lparr>vec_x = Fin ((cw - iw) / 2), vec_y = Fin ((ch - ih) / 2)\<rparr>
                    \<and> zoomLevels st' (target_id t) = Some (Fin 1)
                    \<and> targetScales st' (target_id t) = Some (Fin 1)
                    \<and> cw \<le> iw \<and> ch \<le> ih
                    \<and> cw - iw \<le> (cw - iw) / 2 \<and> (cw - iw) / 2 \<le> 0
                    \<and> ch - ih \<le> (ch - ih) / 2 \<and> (ch - ih) / 2 \<le> 0)"
  have z: "zoomLevels st' (target_id t1) = Some (Fin 1)" "targetScales st' (target_id t1) = Some (Fin 1)"
    "zoomLevels st' (target_id t2) = Some (Fin 1)" "targetScales st' (target_id t2) = Some (Fin 1)"
    "cropPositions st' (target_id t1) = Some (centre t1)"
    "cropPositions st' (target_id t2) = Some (centre t2)"
    by (simp_all add: s ids)
  have "ok t1"
    using centred_position [OF d1(3,4) i(3,4) d1(1,2) i(1,2)] z(1,2)
    unfolding ok_def z(5) centre_def by blast
  moreover have "ok t2"
    using centred_position [OF d2(3,4) i(3,4) d2(1,2) i(1,2)] z(3,4)
    unfolding ok_def z(6) centre_def by blast
  ultimately have "\<forall>t\<in>set (dynamicTargets st'). ok t"
    by (simp add: s(2))
  then show ?thesis
    unfolding Let_def st'_def [symmetric] info_def [symmetric] ok_def
    using s(1,2) targets by simp
qed

theorem initial_centering_witness:
  "cropPositions (uploaded 1 1) ''mobile'' = Some \<lparr>vec_x = Fin 0, vec_y = Fin (- 225)\<rparr>
   \<and> zoomLevels (uploaded 1 1) ''mobile'' = Some (Fin 1)
   \<and> targetScales (uploaded 1 1) ''mobile'' = Some (Fin 1)"
proof -
  define info where "info = \<lparr>img_src = [], img_width = Fin (real (1::nat)), img_height = Fin (real (1::nat)),
                      img_name = removeExtension (file_name sampleFile), img_size = file_size sampleFile\<rparr>"
  define t where "t = fitTarget (Fin (real (1::nat))) (Fin (real (1::nat))) (CROP_PRESETS ! 0)"
  have pos: "(0::nat) < 1" by simp
  note T = initial_centering [OF pos pos, of "[]" sampleFile initialState, unfolded Let_def,
      folded uploaded_def info_def]
  have "t \<in> set (dynamicTargets (uploaded 1 1))"
    using T by (simp add: t_def CROP_PRESETS_def)
  with T obtain cw ch iw ih where
    L: "layout_container (calculateLayout t info) = \<lparr>size_width = Fin cw, size_height = Fin ch\<rparr>"
      "layout_image (calculateLayout t info) = \<lparr>size_width = Fin iw, size_height = Fin ih\<rparr>"
    and P: "cropPositions (uploaded 1 1) (target_id t) =
              Some \<lparr>vec_x = Fin ((cw - iw) / 2), vec_y = Fin ((ch - ih) / 2)\<rparr>"
      "zoomLevels (uploaded 1 1) (target_id t) = Some (Fin 1)"
      "targetScales (uploaded 1 1) (target_id t) = Some (Fin 1)"
    by blast
  have "calculateLayout t info =
          \<lparr>layout_container = \<lparr>size_width = Fin 450, size_height = Fin 0\<rparr>,
           layout_image = \<lparr>size_width = Fin 450, size_height = Fin 450\<rparr>,
           scaleFactor = Fin (1 / 450)\<rparr>"
    by (simp add: t_def info_def fitTarget_1_1_mobile calculateLayout_def
        PREVIEW_WIDTH_def Let_def)
  with L have "cw = 450" "ch = 0" "iw = 450" "ih = 450"
    by simp_all
  moreover have "target_id t = ''mobile''"
    by (simp add: t_def fitTarget_id CROP_PRESETS_def)
  ultimately show ?thesis
    using P by simp
qed

end
